theory Spec2Isabelle
  imports Main "HOL-Library.Word"
begin

unbundle bit_operations_syntax

section \<open>GPU objects\<close>

text \<open>
  Modelled from the spec: the graphics-buffer API (\<open>GPU_vertbuf_create_with_format_ex\<close>,
  \<open>GPU_vertbuf_data_alloc\<close>, the \<open>GPU_*_DISCARD_SAFE\<close> macros) is declared outside the
  source file. The spec (section 6) gives it as "create a typed buffer", "allocate raw
  storage" and "free a buffer/index-buffer/batch safely (no-op if null)".

  A GPU object (vertex buffer, index buffer or batch) is a handle. A pointer field of the
  cache is a \<open>nat option\<close>, \<open>None\<close> being \<open>nullptr\<close>. The device keeps the set of
  live handles and the next unused handle, so that every creation and every release is
  visible in the state. The contents of attribute buffers are not part of the model.
\<close>

record GPU =
  gpu_live :: "nat set"
  gpu_next :: nat


text \<open>
  \<open>GPU_VERTBUF_DISCARD_SAFE(v)\<close>, \<open>GPU_INDEXBUF_DISCARD_SAFE(v)\<close> and
  \<open>GPU_BATCH_DISCARD_SAFE(v)\<close>: release the object when the pointer is not null. The macro
  also nulls the pointer; the callers below write that \<open>None\<close> into the field.
\<close>

definition discard_safe :: "nat option \<Rightarrow> GPU \<Rightarrow> GPU" where
  "discard_safe v g = (case v of None \<Rightarrow> g | Some b \<Rightarrow> g\<lparr>gpu_live := gpu_live g - {b}\<rparr>)"

definition handles :: "nat option list \<Rightarrow> nat set" where
  "handles vs = {b. Some b \<in> set vs}"

section \<open>Attribute requests\<close>

text \<open>
  Modelled from the spec: \<open>DRW_Attributes\<close>, \<open>DRW_AttributeRequest\<close> and the functions
  \<open>drw_attributes_clear\<close>, \<open>drw_attributes_add_request\<close>, \<open>drw_attributes_overlap\<close> and
  \<open>drw_attributes_merge\<close> live in \<open>draw_attributes.hh\<close>, which is not among the sources.
  The spec (section 2) describes the request set as "a small ordered collection of
  (name, type, domain, source-layer) tuples with set-equality and merge operations", and
  (section 4.5) the test \<open>drw_attributes_overlap(current, new)\<close> as "the new set is a
  subset of the current set". The attribute domain is one of Point and Curve (section 3).
\<close>

datatype AttrDomain = Point | Curve

record DRW_AttributeRequest =
  attribute_name :: string
  cd_type :: int
  layer_index :: int
  domain :: AttrDomain

type_synonym DRW_Attributes = "DRW_AttributeRequest list"

definition drw_attributes_clear :: DRW_Attributes where
  "drw_attributes_clear = []"

definition drw_attributes_add_request ::
  "DRW_Attributes \<Rightarrow> string \<Rightarrow> int \<Rightarrow> int \<Rightarrow> AttrDomain \<Rightarrow> DRW_Attributes" where
  "drw_attributes_add_request attrs name type layer attr_domain =
     (let req = \<lparr>attribute_name = name, cd_type = type, layer_index = layer,
                 domain = attr_domain\<rparr>
      in if req \<in> set attrs then attrs else attrs @ [req])"

definition drw_attributes_overlap :: "DRW_Attributes \<Rightarrow> DRW_Attributes \<Rightarrow> bool" where
  "drw_attributes_overlap a b = (set b \<subseteq> set a)"

definition drw_attributes_merge :: "DRW_Attributes \<Rightarrow> DRW_Attributes \<Rightarrow> DRW_Attributes" where
  "drw_attributes_merge dst src =
     fold (\<lambda>req d. if req \<in> set d then d else d @ [req]) src dst"

section \<open>The batch cache\<close>

text \<open>
  \<open>CurvesEvalFinalCache\<close> and \<open>CurvesEvalCache\<close> are declared in
  \<open>draw_curves_private.hh\<close>; their fields are the ones the source file reads and writes.
  The two attribute buffer arrays have \<open>GPU_MAX_ATTR\<close> slots. The value of that constant
  is not in the sources, so every function that creates an array takes it as a parameter.
\<close>

record CurvesEvalFinalCache =
  proc_buf :: "nat option"
  proc_hairs :: "nat option"
  hair_subdiv :: int
  thickres :: int
  resolution :: int
  attr_used :: DRW_Attributes
  attr_used_over_time :: DRW_Attributes
  last_attr_matching_time :: int
  attributes_buf :: "nat option list"

record CurvesEvalCache =
  proc_point_buf :: "nat option"
  proc_length_buf :: "nat option"
  proc_strand_buf :: "nat option"
  proc_strand_seg_buf :: "nat option"
  final :: CurvesEvalFinalCache
  proc_attributes_buf :: "nat option list"
  curves_num :: int
  points_num :: int

text \<open>\<open>struct CurvesBatchCache\<close>; the placeholder \<open>render_mutex\<close> carries no data.\<close>

record CurvesBatchCache =
  eval_cache :: CurvesEvalCache
  edit_points :: "nat option"
  edit_handles :: "nat option"
  sculpt_cage :: "nat option"
  sculpt_cage_ibo :: "nat option"
  edit_points_pos :: "nat option"
  edit_points_data :: "nat option"
  edit_points_selection :: "nat option"
  edit_handles_ibo :: "nat option"
  edit_curves_lines :: "nat option"
  edit_curves_lines_pos :: "nat option"
  edit_curves_lines_ibo :: "nat option"
  is_dirty :: bool

text \<open>
  The geometry as far as the cache code reads it: the point and curve counts, the
  attribute store's \<open>lookup_meta_data\<close> (a map from names to domain and data type) and
  \<open>CustomData_get_named_layer\<close> on the point or curve custom data (by domain).
\<close>

record AttributeMetaData =
  meta_domain :: AttrDomain
  data_type :: int

record CurvesGeometry =
  point_num :: int
  curve_num :: int
  lookup_meta_data :: "string \<Rightarrow> AttributeMetaData option"
  get_named_layer :: "AttrDomain \<Rightarrow> int \<Rightarrow> string \<Rightarrow> int"

record Curves =
  geometry :: CurvesGeometry
  batch_cache :: "CurvesBatchCache option"

text \<open>The value-initialised objects: \<open>CurvesEvalCache{}\<close> and \<open>MEM_new<CurvesBatchCache>\<close>.\<close>

definition zero_final_cache :: "nat \<Rightarrow> CurvesEvalFinalCache" where
  "zero_final_cache GPU_MAX_ATTR =
     \<lparr>proc_buf = None, proc_hairs = None, hair_subdiv = 0, thickres = 0, resolution = 0,
      attr_used = [], attr_used_over_time = [], last_attr_matching_time = 0,
      attributes_buf = replicate GPU_MAX_ATTR None\<rparr>"

definition zero_eval_cache :: "nat \<Rightarrow> CurvesEvalCache" where
  "zero_eval_cache GPU_MAX_ATTR =
     \<lparr>proc_point_buf = None, proc_length_buf = None, proc_strand_buf = None,
      proc_strand_seg_buf = None, final = zero_final_cache GPU_MAX_ATTR,
      proc_attributes_buf = replicate GPU_MAX_ATTR None, curves_num = 0, points_num = 0\<rparr>"

definition zero_batch_cache :: "nat \<Rightarrow> CurvesBatchCache" where
  "zero_batch_cache GPU_MAX_ATTR =
     \<lparr>eval_cache = zero_eval_cache GPU_MAX_ATTR,
      edit_points = None, edit_handles = None, sculpt_cage = None, sculpt_cage_ibo = None,
      edit_points_pos = None, edit_points_data = None, edit_points_selection = None,
      edit_handles_ibo = None, edit_curves_lines = None, edit_curves_lines_pos = None,
      edit_curves_lines_ibo = None, is_dirty = False\<rparr>"

text \<open>\<open>batch_cache_is_dirty\<close>: true when the cache exists and its flag is false.\<close>

definition batch_cache_is_dirty :: "Curves \<Rightarrow> bool" where
  "batch_cache_is_dirty curves =
     (case batch_cache curves of None \<Rightarrow> False | Some cache \<Rightarrow> is_dirty cache = False)"

definition init_batch_cache :: "nat \<Rightarrow> Curves \<Rightarrow> Curves" where
  "init_batch_cache GPU_MAX_ATTR curves =
     (let cache = (case batch_cache curves of
                     None \<Rightarrow> zero_batch_cache GPU_MAX_ATTR
                   | Some cache \<Rightarrow> cache\<lparr>eval_cache := zero_eval_cache GPU_MAX_ATTR\<rparr>)
      in curves\<lparr>batch_cache := Some (cache\<lparr>is_dirty := False\<rparr>)\<rparr>)"

definition discard_attributes :: "CurvesEvalCache \<Rightarrow> GPU \<Rightarrow> CurvesEvalCache \<times> GPU" where
  "discard_attributes ec g =
     (let g1 = fold discard_safe (proc_attributes_buf ec) g;
          g2 = fold discard_safe (attributes_buf (final ec)) g1
      in (ec\<lparr>proc_attributes_buf := map (\<lambda>_. None) (proc_attributes_buf ec),
             final := (final ec)\<lparr>attributes_buf := map (\<lambda>_. None) (attributes_buf (final ec)),
                                  attr_used := drw_attributes_clear\<rparr>\<rparr>,
          g2))"

definition clear_edit_data :: "CurvesBatchCache \<Rightarrow> GPU \<Rightarrow> CurvesBatchCache \<times> GPU" where
  "clear_edit_data cache g =
     (cache\<lparr>edit_points_pos := None, edit_points_data := None, edit_points_selection := None,
            edit_handles_ibo := None, edit_points := None, edit_handles := None,
            sculpt_cage_ibo := None, sculpt_cage := None, edit_curves_lines_pos := None,
            edit_curves_lines_ibo := None, edit_curves_lines := None\<rparr>,
      fold discard_safe
        [edit_points_pos cache, edit_points_data cache, edit_points_selection cache,
         edit_handles_ibo cache, edit_points cache, edit_handles cache,
         sculpt_cage_ibo cache, sculpt_cage cache, edit_curves_lines_pos cache,
         edit_curves_lines_ibo cache, edit_curves_lines cache] g)"

definition clear_final_data :: "CurvesEvalFinalCache \<Rightarrow> GPU \<Rightarrow> CurvesEvalFinalCache \<times> GPU" where
  "clear_final_data final_cache g =
     (final_cache\<lparr>proc_buf := None, proc_hairs := None,
                  attributes_buf := map (\<lambda>_. None) (attributes_buf final_cache)\<rparr>,
      fold discard_safe
        ([proc_buf final_cache, proc_hairs final_cache] @ attributes_buf final_cache) g)"

definition clear_eval_data :: "CurvesEvalCache \<Rightarrow> GPU \<Rightarrow> CurvesEvalCache \<times> GPU" where
  "clear_eval_data ec g =
     (let g1 = fold discard_safe
                 [proc_point_buf ec, proc_length_buf ec, proc_strand_buf ec,
                  proc_strand_seg_buf ec] g;
          ec1 = ec\<lparr>proc_point_buf := None, proc_length_buf := None, proc_strand_buf := None,
                   proc_strand_seg_buf := None\<rparr>;
          (fc, g2) = clear_final_data (final ec1) g1
      in discard_attributes (ec1\<lparr>final := fc\<rparr>) g2)"

definition clear_batch_cache :: "Curves \<Rightarrow> GPU \<Rightarrow> Curves \<times> GPU" where
  "clear_batch_cache curves g =
     (case batch_cache curves of
        None \<Rightarrow> (curves, g)
      | Some cache \<Rightarrow>
          (let (ec, g1) = clear_eval_data (eval_cache cache) g;
               (cache', g2) = clear_edit_data (cache\<lparr>eval_cache := ec\<rparr>) g1
           in (curves\<lparr>batch_cache := Some cache'\<rparr>, g2)))"

definition DRW_curves_batch_cache_validate :: "nat \<Rightarrow> Curves \<Rightarrow> GPU \<Rightarrow> Curves \<times> GPU" where
  "DRW_curves_batch_cache_validate GPU_MAX_ATTR curves g =
     (if \<not> batch_cache_is_dirty curves
      then (let (curves', g') = clear_batch_cache curves g
            in (init_batch_cache GPU_MAX_ATTR curves', g'))
      else (curves, g))"

text \<open>\<open>get_batch_cache\<close>: validate, then hand out the cache.\<close>

definition get_batch_cache :: "nat \<Rightarrow> Curves \<Rightarrow> GPU \<Rightarrow> Curves \<times> GPU" where
  "get_batch_cache GPU_MAX_ATTR curves g = DRW_curves_batch_cache_validate GPU_MAX_ATTR curves g"

text \<open>Every GPU object a cache points to, tier by tier.\<close>

definition final_bufs :: "CurvesEvalFinalCache \<Rightarrow> nat set" where
  "final_bufs fc = handles ([proc_buf fc, proc_hairs fc] @ attributes_buf fc)"

definition topology_bufs :: "CurvesEvalCache \<Rightarrow> nat set" where
  "topology_bufs ec =
     handles [proc_point_buf ec, proc_length_buf ec, proc_strand_buf ec, proc_strand_seg_buf ec]"

definition edit_bufs :: "CurvesBatchCache \<Rightarrow> nat set" where
  "edit_bufs cache =
     handles [edit_points_pos cache, edit_points_data cache, edit_points_selection cache,
              edit_handles_ibo cache, edit_points cache, edit_handles cache,
              sculpt_cage_ibo cache, sculpt_cage cache, edit_curves_lines_pos cache,
              edit_curves_lines_ibo cache, edit_curves_lines cache]"

definition cache_bufs :: "CurvesBatchCache \<Rightarrow> nat set" where
  "cache_bufs cache =
     topology_bufs (eval_cache cache) \<union> final_bufs (final (eval_cache cache))
     \<union> handles (proc_attributes_buf (eval_cache cache)) \<union> edit_bufs cache"

section \<open>Dirty tagging\<close>

text \<open>
  \<open>BLI_assert_unreachable()\<close> is an assertion macro of a header outside the sources; the
  spec (section 7) calls it a fatal assertion, so reaching it is the error value.
  The enumerator \<open>BKE_CURVES_BATCH_DIRTY_ALL\<close> is declared outside the sources as well and
  is a parameter.
\<close>

datatype error = AssertUnreachable | OutOfBounds

definition DRW_curves_batch_cache_dirty_tag :: "int \<Rightarrow> Curves \<Rightarrow> int \<Rightarrow> error + Curves" where
  "DRW_curves_batch_cache_dirty_tag BKE_CURVES_BATCH_DIRTY_ALL curves mode =
     (case batch_cache curves of
        None \<Rightarrow> Inr curves
      | Some cache \<Rightarrow>
          if mode = BKE_CURVES_BATCH_DIRTY_ALL
          then Inr (curves\<lparr>batch_cache := Some (cache\<lparr>is_dirty := True\<rparr>)\<rparr>)
          else Inl AssertUnreachable)"

section \<open>Attribute buffers\<close>






section \<open>Requests from the render engines\<close>

text \<open>
  \<open>get_batch_cache\<close> validates and then dereferences \<open>curves.batch_cache\<close>, which validation
  has made non-null (lemma \<open>validate_cache_exists\<close> below). The functions that work on the
  cache through that reference write it back into \<open>curves\<close> with \<open>put_batch_cache\<close>.
\<close>

definition the_batch_cache :: "Curves \<Rightarrow> CurvesBatchCache" where
  "the_batch_cache curves = the (batch_cache curves)"

definition put_batch_cache :: "CurvesBatchCache \<Rightarrow> Curves \<Rightarrow> Curves" where
  "put_batch_cache cache curves = curves\<lparr>batch_cache := Some cache\<rparr>"

definition request_attribute :: "nat \<Rightarrow> Curves \<Rightarrow> string \<Rightarrow> GPU \<Rightarrow> Curves \<times> GPU" where
  "request_attribute GPU_MAX_ATTR curves name g =
     (let (curves1, g1) = get_batch_cache GPU_MAX_ATTR curves g;
          cache = the_batch_cache curves1;
          final_cache = final (eval_cache cache)
      in case lookup_meta_data (geometry curves1) name of
           None \<Rightarrow> (curves1, g1)
         | Some meta_data \<Rightarrow>
             (let attr_domain = meta_domain meta_data;
                  type = data_type meta_data;
                  attributes =
                    drw_attributes_add_request [] name type
                      (get_named_layer (geometry curves1) attr_domain type name) attr_domain;
                  final_cache' = final_cache
                    \<lparr>attr_used := drw_attributes_merge (attr_used final_cache) attributes\<rparr>
              in (put_batch_cache
                    (cache\<lparr>eval_cache := (eval_cache cache)\<lparr>final := final_cache'\<rparr>\<rparr>) curves1,
                  g1)))"

text \<open>
  The part of \<open>curves_ensure_procedural_data\<close> that reacts to changed settings (source
  lines 875 to 880), on the evaluation cache that \<open>get_batch_cache\<close> handed out.
\<close>

definition curves_ensure_procedural_data_settings ::
  "CurvesEvalCache \<Rightarrow> int \<Rightarrow> int \<Rightarrow> GPU \<Rightarrow> CurvesEvalCache \<times> GPU" where
  "curves_ensure_procedural_data_settings ec subdiv thickness_res g =
     (if hair_subdiv (final ec) \<noteq> subdiv \<or> thickres (final ec) \<noteq> thickness_res
      then (let (fc, g') = clear_final_data (final ec) g
            in (ec\<lparr>final := fc\<lparr>hair_subdiv := subdiv, thickres := thickness_res\<rparr>\<rparr>, g'))
      else (ec, g))"

text \<open>
  \<open>DRW_curves_batch_cache_free_old\<close>. \<open>U.vbotimeout\<close> is a field of the global user
  preferences, declared outside the sources: the parameter \<open>vbotimeout\<close>.
\<close>

definition DRW_curves_batch_cache_free_old :: "int \<Rightarrow> Curves \<Rightarrow> int \<Rightarrow> GPU \<Rightarrow> Curves \<times> GPU" where
  "DRW_curves_batch_cache_free_old vbotimeout curves ctime g =
     (case batch_cache curves of
        None \<Rightarrow> (curves, g)
      | Some cache \<Rightarrow>
          (let ec = eval_cache cache;
               fc = final ec;
               fc1 = (if drw_attributes_overlap (attr_used_over_time fc) (attr_used fc)
                      then fc\<lparr>last_attr_matching_time := ctime\<rparr> else fc);
               do_discard = (ctime - last_attr_matching_time fc1 > vbotimeout);
               ec2 = ec\<lparr>final := fc1\<lparr>attr_used_over_time := drw_attributes_clear\<rparr>\<rparr>;
               (ec3, g3) = (if do_discard then discard_attributes ec2 g else (ec2, g))
           in (curves\<lparr>batch_cache := Some (cache\<lparr>eval_cache := ec3\<rparr>)\<rparr>, g3)))"

text \<open>
  \<open>DRW_curves_texture_for_evaluated_attribute\<close> returns the address of a slot of one of
  the two buffer arrays, or null, and writes \<open>r_is_point_domain\<close>. A slot address is a
  \<open>slot_ref\<close>; the result is the returned pointer, the flag and the new state.
\<close>

datatype slot_ref = Final_attributes_buf nat | Proc_attributes_buf nat

fun request_index :: "string \<Rightarrow> DRW_AttributeRequest list \<Rightarrow> nat option" where
  "request_index name [] = None"
| "request_index name (r # rs) =
     (if attribute_name r = name then Some 0 else map_option Suc (request_index name rs))"

definition DRW_curves_texture_for_evaluated_attribute ::
  "nat \<Rightarrow> Curves \<Rightarrow> string \<Rightarrow> GPU \<Rightarrow> slot_ref option \<times> bool \<times> Curves \<times> GPU" where
  "DRW_curves_texture_for_evaluated_attribute GPU_MAX_ATTR curves name g =
     (let (curves1, g1) = get_batch_cache GPU_MAX_ATTR curves g;
          (curves2, g2) = request_attribute GPU_MAX_ATTR curves1 name g1;
          final_cache = final (eval_cache (the_batch_cache curves2))
      in case request_index name (attr_used final_cache) of
           None \<Rightarrow> (None, False, curves2, g2)
         | Some request_i \<Rightarrow>
             (case domain (attr_used final_cache ! request_i) of
                Point \<Rightarrow> (Some (Final_attributes_buf request_i), True, curves2, g2)
              | Curve \<Rightarrow> (Some (Proc_attributes_buf request_i), False, curves2, g2)))"

section \<open>Curve topology\<close>

text \<open>
  Modelled from the spec: \<open>OffsetIndices<int>\<close> and \<open>IndexRange\<close> are library types declared
  outside the sources. The spec (section 3) gives the topology as "per-curve point ranges
  (offsets)": \<open>points_by_curve\<close> is the list of offsets, one more than there are curves,
  and curve \<open>i\<close> owns the points from offset \<open>i\<close> up to offset \<open>i + 1\<close>. An \<open>IndexRange\<close>
  is a start and a size. Counts are natural numbers; the source keeps them in \<open>int\<close> and
  its geometry never exceeds that range.
\<close>

type_synonym OffsetIndices = "nat list"

type_synonym IndexRange = "nat \<times> nat"

definition ir_start :: "IndexRange \<Rightarrow> nat" where
  "ir_start r = fst r"

definition ir_size :: "IndexRange \<Rightarrow> nat" where
  "ir_size r = snd r"

text \<open>\<open>r[i]\<close>, \<open>r.first()\<close>, \<open>r.last(n)\<close> and \<open>r.index_range()\<close>.\<close>

definition ir_nth :: "IndexRange \<Rightarrow> nat \<Rightarrow> nat" where
  "ir_nth r i = ir_start r + i"

definition ir_first :: "IndexRange \<Rightarrow> nat" where
  "ir_first r = ir_start r"

definition ir_last :: "IndexRange \<Rightarrow> nat \<Rightarrow> nat" where
  "ir_last r n = ir_start r + ir_size r - 1 - n"

definition index_range :: "IndexRange \<Rightarrow> nat list" where
  "index_range r = [0..<ir_size r]"

text \<open>\<open>points_by_curve.size()\<close>, \<open>points_by_curve.total_size()\<close> and \<open>points_by_curve[i]\<close>.\<close>

definition offsets_size :: "OffsetIndices \<Rightarrow> nat" where
  "offsets_size offsets = length offsets - 1"

definition total_size :: "OffsetIndices \<Rightarrow> nat" where
  "total_size offsets = (if 1 < length offsets then last offsets - hd offsets else 0)"

definition curve_points :: "OffsetIndices \<Rightarrow> nat \<Rightarrow> IndexRange" where
  "curve_points offsets i = (offsets ! i, offsets ! Suc i - offsets ! i)"

text \<open>
  The segment count that \<open>fill_curve_offsets_vbos\<close> stores for a curve,
  \<open>points.size() - 1\<close>, as the \<open>int\<close> it is before the store narrows it.
\<close>

definition segment_count :: "OffsetIndices \<Rightarrow> nat \<Rightarrow> int" where
  "segment_count offsets i = int (ir_size (curve_points offsets i)) - 1"

text \<open>
  The offsets of a geometry start at 0, do not decrease, and there is at least the one
  offset that closes the last curve.
\<close>

definition offsets_ok :: "OffsetIndices \<Rightarrow> bool" where
  "offsets_ok offsets \<longleftrightarrow> offsets \<noteq> [] \<and> hd offsets = 0 \<and> sorted offsets"

section \<open>Line index buffers\<close>

text \<open>
  \<open>create_lines_ibo_no_cyclic\<close> and \<open>create_lines_ibo_with_cyclic\<close>. The index data is an
  array of \<open>uint\<close> that \<open>GPU_indexbuf_init\<close> hands out uninitialised: a list of
  \<open>32 word option\<close>, \<open>None\<close> being a slot nothing was written to. The sentinel
  \<open>gpu::RESTART_INDEX\<close> is declared outside the sources and is a parameter. The parallel
  loop over the curves writes disjoint ranges, so it is the fold in curve order; each
  function returns the index data it hands to \<open>GPU_indexbuf_build_in_place_ex\<close>.
\<close>

definition fill_points :: "IndexRange \<Rightarrow> IndexRange \<Rightarrow> 32 word option list \<Rightarrow> 32 word option list" where
  "fill_points points ibo_range ibo_data =
     fold (\<lambda>i d. d[ir_nth ibo_range i := Some (of_nat (ir_nth points i))])
       (index_range points) ibo_data"

definition no_cyclic_curve ::
  "32 word \<Rightarrow> OffsetIndices \<Rightarrow> nat \<Rightarrow> 32 word option list \<Rightarrow> 32 word option list" where
  "no_cyclic_curve RESTART_INDEX points_by_curve curve ibo_data =
     (let points = curve_points points_by_curve curve;
          ibo_range = (ir_start points + curve, ir_size points + 1);
          ibo_data1 = fill_points points ibo_range ibo_data
      in ibo_data1[ir_last ibo_range 0 := Some RESTART_INDEX])"

definition create_lines_ibo_no_cyclic :: "32 word \<Rightarrow> OffsetIndices \<Rightarrow> 32 word option list" where
  "create_lines_ibo_no_cyclic RESTART_INDEX points_by_curve =
     (let points_num = total_size points_by_curve;
          curves_num = offsets_size points_by_curve;
          indices_num = points_num + curves_num
      in fold (no_cyclic_curve RESTART_INDEX points_by_curve) [0..<curves_num]
           (replicate indices_num None))"

definition with_cyclic_curve ::
  "32 word \<Rightarrow> OffsetIndices \<Rightarrow> bool list \<Rightarrow> nat \<Rightarrow> 32 word option list
     \<Rightarrow> 32 word option list" where
  "with_cyclic_curve RESTART_INDEX points_by_curve cyclic curve ibo_data =
     (let points = curve_points points_by_curve curve;
          ibo_range = (ir_start points + curve * 2, ir_size points + 2);
          ibo_data1 = fill_points points ibo_range ibo_data;
          ibo_data2 = ibo_data1[ir_last ibo_range 1 :=
                        Some (if cyclic ! curve then of_nat (ir_first points)
                              else RESTART_INDEX)]
      in ibo_data2[ir_last ibo_range 0 := Some RESTART_INDEX])"

definition create_lines_ibo_with_cyclic ::
  "32 word \<Rightarrow> OffsetIndices \<Rightarrow> bool list \<Rightarrow> 32 word option list" where
  "create_lines_ibo_with_cyclic RESTART_INDEX points_by_curve cyclic =
     (let points_num = total_size points_by_curve;
          curves_num = offsets_size points_by_curve;
          indices_num = points_num + curves_num * 2
      in fold (with_cyclic_curve RESTART_INDEX points_by_curve cyclic) [0..<curves_num]
           (replicate indices_num None))"

text \<open>
  Modelled from the spec: \<open>array_utils::booleans_mix_calc\<close> is outside the sources. The spec
  (section 4.4) has the selection "scan all cyclic flags; if none are true, use the
  cheaper non-cyclic variant", so the result is \<open>AllFalse\<close> exactly when no flag is true.
\<close>

datatype BooleanMix = AllFalse | AllTrue | Mixed

definition booleans_mix_calc :: "bool list \<Rightarrow> BooleanMix" where
  "booleans_mix_calc bs =
     (if list_all (\<lambda>b. \<not> b) bs then AllFalse else if list_all (\<lambda>b. b) bs then AllTrue else Mixed)"

text \<open>The overload of \<open>create_lines_ibo_with_cyclic\<close> that takes the flags as a \<open>VArray\<close>.\<close>

definition create_lines_ibo_with_cyclic_varray ::
  "32 word \<Rightarrow> OffsetIndices \<Rightarrow> bool list \<Rightarrow> 32 word option list" where
  "create_lines_ibo_with_cyclic_varray RESTART_INDEX points_by_curve cyclic =
     (let cyclic_mix = booleans_mix_calc cyclic
      in if cyclic_mix = AllFalse
         then create_lines_ibo_no_cyclic RESTART_INDEX points_by_curve
         else create_lines_ibo_with_cyclic RESTART_INDEX points_by_curve cyclic)"

text \<open>
  The slots of a buffer that a range covers, the point indices of a curve as the buffer
  stores them, and a per-curve range without its second-to-last slot.
\<close>

definition slots :: "'a list \<Rightarrow> IndexRange \<Rightarrow> 'a list" where
  "slots xs r = take (ir_size r) (drop (ir_start r) xs)"

definition point_indices :: "OffsetIndices \<Rightarrow> nat \<Rightarrow> 32 word option list" where
  "point_indices offsets curve =
     map (\<lambda>p. Some (of_nat p)) [offsets ! curve..<offsets ! Suc curve]"

definition without_closing_slot :: "'a list \<Rightarrow> 'a list" where
  "without_closing_slot xs = butlast (butlast xs) @ [last xs]"

section \<open>Edit-mode point data\<close>

text \<open>The \<open>EDIT_CURVES_*\<close> flags and \<open>bezier_data_value\<close>. A handle type is an \<open>int8_t\<close>,
  promoted to \<open>int\<close> before the shift and converted to \<open>uint32_t\<close> by the bitwise or.\<close>

definition EDIT_CURVES_NURBS_CONTROL_POINT :: "32 word" where
  "EDIT_CURVES_NURBS_CONTROL_POINT = 1"

definition EDIT_CURVES_BEZIER_HANDLE :: "32 word" where
  "EDIT_CURVES_BEZIER_HANDLE = push_bit 1 1"

definition EDIT_CURVES_ACTIVE_HANDLE :: "32 word" where
  "EDIT_CURVES_ACTIVE_HANDLE = push_bit 2 1"

definition EDIT_CURVES_BEZIER_KNOT :: "32 word" where
  "EDIT_CURVES_BEZIER_KNOT = push_bit 3 1"

definition EDIT_CURVES_HANDLE_TYPES_SHIFT :: nat where
  "EDIT_CURVES_HANDLE_TYPES_SHIFT = 4"

definition bezier_data_value :: "8 word \<Rightarrow> bool \<Rightarrow> 32 word" where
  "bezier_data_value handle_type is_active =
     push_bit EDIT_CURVES_HANDLE_TYPES_SHIFT (scast handle_type) OR EDIT_CURVES_BEZIER_HANDLE
       OR (if is_active then EDIT_CURVES_ACTIVE_HANDLE else 0)"

text \<open>
  Modelled from the spec: the curve type enumeration, \<open>bke::curves::indices_for_type\<close>,
  \<open>bke::curves::foreach_curve_by_type\<close>, \<open>offset_indices::gather_selected_offsets\<close> and
  \<open>array_utils::count_booleans\<close> are outside the sources. The spec's glossary has the
  "curve-type partition" as the "grouping of curves in one geometry batch by interpolation
  kind"; section 4.6 places the handles of a Bezier curve "ordered by the curve's position
  among Bezier curves". An index mask is the increasing list of the curves of one type,
  the gathered offsets are the running totals of their point counts, and
  \<open>foreach_curve_by_type\<close> runs its four functions on the four masks in the order of its
  arguments.
\<close>

datatype CurveType = CURVE_TYPE_CATMULL_ROM | CURVE_TYPE_POLY | CURVE_TYPE_BEZIER | CURVE_TYPE_NURBS

definition indices_for_type :: "CurveType list \<Rightarrow> CurveType \<Rightarrow> nat list" where
  "indices_for_type curve_types t = filter (\<lambda>i. curve_types ! i = t) [0..<length curve_types]"

definition gather_selected_offsets :: "OffsetIndices \<Rightarrow> nat list \<Rightarrow> OffsetIndices" where
  "gather_selected_offsets offsets selection =
     map (\<lambda>k. sum_list (map (\<lambda>c. ir_size (curve_points offsets c)) (take k selection)))
       [0..<Suc (length selection)]"

definition count_booleans :: "bool list \<Rightarrow> IndexRange \<Rightarrow> nat" where
  "count_booleans bs r = length (filter (\<lambda>b. b) (slots bs r))"

text \<open>
  \<open>create_edit_points_position_and_data\<close>, as far as it fills \<open>edit_points_data\<close>: the
  positions are floating-point copies and are left out. \<open>deformed_num\<close> is
  \<open>deformation.positions.size()\<close>. \<open>fill_range\<close> is \<open>data_dst.slice(points).fill(value)\<close>,
  \<open>handle_other_curves\<close> is the lambda of that name, \<open>bezier_point\<close> is the body of the
  loop over the points of one Bezier curve and \<open>bezier_curve\<close> that loop.
\<close>

definition fill_range :: "IndexRange \<Rightarrow> 32 word \<Rightarrow> 32 word option list \<Rightarrow> 32 word option list" where
  "fill_range points data_value d =
     fold (\<lambda>i d. d[ir_nth points i := Some data_value]) (index_range points) d"

definition handle_other_curves ::
  "OffsetIndices \<Rightarrow> bool list \<Rightarrow> 32 word \<Rightarrow> bool \<Rightarrow> nat list \<Rightarrow> 32 word option list
     \<Rightarrow> 32 word option list" where
  "handle_other_curves points_by_curve selection_attr fill_value mark_active selection data_dst =
     fold (\<lambda>curve_i d.
            let points = curve_points points_by_curve curve_i;
                is_active = (mark_active \<and> count_booleans selection_attr points > 0);
                data_value = fill_value OR (if is_active then EDIT_CURVES_ACTIVE_HANDLE else 0)
            in fill_range points data_value d)
       selection data_dst"

record EditAttributes =
  left_handle_types :: "8 word list"
  right_handle_types :: "8 word list"
  selection_attr :: "bool list"
  selection_left :: "bool list"
  selection_right :: "bool list"

definition bezier_point ::
  "EditAttributes \<Rightarrow> nat \<Rightarrow> nat \<Rightarrow> nat \<Rightarrow> nat \<Rightarrow> nat \<Rightarrow> 32 word option list
     \<Rightarrow> 32 word option list" where
  "bezier_point attrs deformed_num bezier_point_count curve_start dst_start point data_dst =
     (let point_in_curve = point - curve_start;
          dst_index = dst_start + point_in_curve;
          d1 = data_dst[point := Some EDIT_CURVES_BEZIER_KNOT];
          is_active = (selection_attr attrs ! point \<or> selection_left attrs ! point
                       \<or> selection_right attrs ! point);
          d2 = d1[deformed_num + dst_index :=
                    Some (bezier_data_value (left_handle_types attrs ! point) is_active)]
      in d2[deformed_num + bezier_point_count + dst_index :=
              Some (bezier_data_value (right_handle_types attrs ! point) is_active)])"

definition bezier_curve ::
  "OffsetIndices \<Rightarrow> OffsetIndices \<Rightarrow> EditAttributes \<Rightarrow> nat \<Rightarrow> nat \<times> nat
     \<Rightarrow> 32 word option list \<Rightarrow> 32 word option list" where
  "bezier_curve points_by_curve bezier_dst_offsets attrs deformed_num index data_dst =
     (let src_i = fst index; dst_i = snd index;
          points = curve_points points_by_curve src_i
      in fold (bezier_point attrs deformed_num (total_size bezier_dst_offsets)
                 (ir_start points) (ir_start (curve_points bezier_dst_offsets dst_i)))
           [ir_start points..<ir_start points + ir_size points] data_dst)"

definition create_edit_points_position_and_data ::
  "OffsetIndices \<Rightarrow> CurveType list \<Rightarrow> OffsetIndices \<Rightarrow> nat \<Rightarrow> EditAttributes
     \<Rightarrow> 32 word option list" where
  "create_edit_points_position_and_data points_by_curve curve_types bezier_dst_offsets
       deformed_num attrs =
     (let bezier_point_count = total_size bezier_dst_offsets;
          size = deformed_num + bezier_point_count * 2;
          data_dst = replicate size None;
          d1 = handle_other_curves points_by_curve (selection_attr attrs) 0 False
                 (indices_for_type curve_types CURVE_TYPE_CATMULL_ROM) data_dst;
          d2 = handle_other_curves points_by_curve (selection_attr attrs) 0 False
                 (indices_for_type curve_types CURVE_TYPE_POLY) d1;
          selection = indices_for_type curve_types CURVE_TYPE_BEZIER;
          d3 = fold (bezier_curve points_by_curve bezier_dst_offsets attrs deformed_num)
                 (zip selection [0..<length selection]) d2
      in handle_other_curves points_by_curve (selection_attr attrs)
           EDIT_CURVES_NURBS_CONTROL_POINT True
           (indices_for_type curve_types CURVE_TYPE_NURBS) d3)"

section \<open>Predicates for the reconciliation of attribute buffers\<close>




section \<open>Example states\<close>

text \<open>
  A geometry with a point attribute \<open>radius\<close> and a curve attribute \<open>tilt\<close>, a cache that
  holds six GPU objects, and a device on which a seventh object is live.
\<close>

definition ex_geometry :: CurvesGeometry where
  "ex_geometry =
     \<lparr>point_num = 4, curve_num = 2,
      lookup_meta_data = (\<lambda>name. if name = ''radius''
                            then Some \<lparr>meta_domain = Point, data_type = 10\<rparr>
                          else if name = ''tilt''
                            then Some \<lparr>meta_domain = Curve, data_type = 10\<rparr>
                          else None),
      get_named_layer = (\<lambda>attr_domain type name. 0)\<rparr>"

definition ex_request :: "string \<Rightarrow> AttrDomain \<Rightarrow> DRW_AttributeRequest" where
  "ex_request name attr_domain =
     \<lparr>attribute_name = name, cd_type = 10, layer_index = 0, domain = attr_domain\<rparr>"

definition ex_cache :: CurvesBatchCache where
  "ex_cache =
     \<lparr>eval_cache =
        \<lparr>proc_point_buf = Some 0, proc_length_buf = Some 1, proc_strand_buf = None,
         proc_strand_seg_buf = None,
         final = \<lparr>proc_buf = Some 2, proc_hairs = None, hair_subdiv = 0, thickres = 1,
                  resolution = 8, attr_used = [ex_request ''radius'' Point],
                  attr_used_over_time = [], last_attr_matching_time = 0,
                  attributes_buf = [Some 3, None]\<rparr>,
         proc_attributes_buf = [Some 4, None], curves_num = 2, points_num = 4\<rparr>,
      edit_points = None, edit_handles = None, sculpt_cage = None, sculpt_cage_ibo = None,
      edit_points_pos = Some 5, edit_points_data = None, edit_points_selection = None,
      edit_handles_ibo = None, edit_curves_lines = None, edit_curves_lines_pos = None,
      edit_curves_lines_ibo = None, is_dirty = False\<rparr>"

definition ex_curves :: "CurvesBatchCache option \<Rightarrow> Curves" where
  "ex_curves cache = \<lparr>geometry = ex_geometry, batch_cache = cache\<rparr>"

definition ex_gpu :: GPU where
  "ex_gpu = \<lparr>gpu_live = {0, 1, 2, 3, 4, 5, 6}, gpu_next = 7\<rparr>"


definition ex_attrs :: EditAttributes where
  "ex_attrs =
     \<lparr>left_handle_types = [1, 2, 0, 0, 0, 3], right_handle_types = [3, 1, 0, 0, 0, 0],
      selection_attr = [False, True, False, True, False, True],
      selection_left = [False, False, False, False, False, False],
      selection_right = [True, False, False, False, False, False]\<rparr>"

section \<open>Properties of release\<close>

lemma discard_safe_None [simp]: "discard_safe None g = g"
  by (simp add: discard_safe_def)

lemma discard_safe_Some [simp]: "discard_safe (Some b) g = g\<lparr>gpu_live := gpu_live g - {b}\<rparr>"
  by (simp add: discard_safe_def)

lemma handles_Nil [simp]: "handles [] = {}"
  by (simp add: handles_def)

lemma handles_Cons_None [simp]: "handles (None # vs) = handles vs"
  by (auto simp: handles_def)

lemma handles_Cons_Some [simp]: "handles (Some b # vs) = insert b (handles vs)"
  by (auto simp: handles_def)

lemma fold_discard_safe:
  "fold discard_safe vs g = g\<lparr>gpu_live := gpu_live g - handles vs\<rparr>"
proof (induction vs arbitrary: g)
  case Nil
  show ?case by simp
next
  case (Cons v vs)
  show ?case
  proof (cases v)
    case None
    then show ?thesis by (simp add: Cons.IH)
  next
    case (Some b)
    have "gpu_live g - {b} - handles vs = gpu_live g - insert b (handles vs)"
      by blast
    with Some show ?thesis by (simp add: Cons.IH)
  qed
qed

lemma handles_append: "handles (xs @ ys) = handles xs \<union> handles ys"
  by (auto simp: handles_def)

lemma handles_all_None [simp]: "handles (map (\<lambda>_. None) xs) = {}"
  by (auto simp: handles_def)

lemma handles_replicate_None [simp]: "handles (replicate n None) = {}"
  by (auto simp: handles_def)

lemma gpu_live_twice:
  "g\<lparr>gpu_live := gpu_live g - A\<rparr>\<lparr>gpu_live := gpu_live (g\<lparr>gpu_live := gpu_live g - A\<rparr>) - B\<rparr>
     = g\<lparr>gpu_live := gpu_live g - (A \<union> B)\<rparr>"
proof -
  have "gpu_live g - A - B = gpu_live g - (A \<union> B)" by blast
  then show ?thesis by simp
qed

lemma clear_final_data_eq:
  "clear_final_data fc g =
     (fc\<lparr>proc_buf := None, proc_hairs := None,
         attributes_buf := map (\<lambda>_. None) (attributes_buf fc)\<rparr>,
      g\<lparr>gpu_live := gpu_live g - final_bufs fc\<rparr>)"
  by (simp only: clear_final_data_def fold_discard_safe final_bufs_def)

lemma discard_attributes_eq:
  "discard_attributes ec g =
     (ec\<lparr>proc_attributes_buf := map (\<lambda>_. None) (proc_attributes_buf ec),
         final := (final ec)\<lparr>attributes_buf := map (\<lambda>_. None) (attributes_buf (final ec)),
                              attr_used := []\<rparr>\<rparr>,
      g\<lparr>gpu_live := gpu_live g
           - (handles (proc_attributes_buf ec) \<union> handles (attributes_buf (final ec)))\<rparr>)"
  by (simp only: discard_attributes_def fold_discard_safe Let_def gpu_live_twice
      drw_attributes_clear_def)

lemma clear_edit_data_eq:
  "clear_edit_data cache g =
     (cache\<lparr>edit_points_pos := None, edit_points_data := None, edit_points_selection := None,
            edit_handles_ibo := None, edit_points := None, edit_handles := None,
            sculpt_cage_ibo := None, sculpt_cage := None, edit_curves_lines_pos := None,
            edit_curves_lines_ibo := None, edit_curves_lines := None\<rparr>,
      g\<lparr>gpu_live := gpu_live g - edit_bufs cache\<rparr>)"
  by (simp only: clear_edit_data_def fold_discard_safe edit_bufs_def)

lemma clear_eval_data_eq:
  "clear_eval_data ec g =
     (ec\<lparr>proc_point_buf := None, proc_length_buf := None, proc_strand_buf := None,
         proc_strand_seg_buf := None,
         final := (final ec)\<lparr>proc_buf := None, proc_hairs := None,
            attributes_buf := map (\<lambda>_. None) (attributes_buf (final ec)),
            attr_used := []\<rparr>,
         proc_attributes_buf := map (\<lambda>_. None) (proc_attributes_buf ec)\<rparr>,
      g\<lparr>gpu_live := gpu_live g
           - (topology_bufs ec \<union> final_bufs (final ec) \<union> handles (proc_attributes_buf ec))\<rparr>)"
proof -
  have sets: "gpu_live g - topology_bufs ec - final_bufs (final ec)
        - (handles (proc_attributes_buf ec) \<union> handles (map (\<lambda>_. None) (attributes_buf (final ec))))
      = gpu_live g - (topology_bufs ec \<union> final_bufs (final ec) \<union> handles (proc_attributes_buf ec))"
    by auto
  show ?thesis
    unfolding clear_eval_data_def fold_discard_safe clear_final_data_eq discard_attributes_eq
      topology_bufs_def[symmetric] Let_def
    using sets by simp
qed

lemma clear_batch_cache_Some:
  "batch_cache curves = Some cache \<Longrightarrow>
   clear_batch_cache curves g =
     (curves\<lparr>batch_cache := Some (cache\<lparr>
        eval_cache := (eval_cache cache)\<lparr>proc_point_buf := None, proc_length_buf := None,
           proc_strand_buf := None, proc_strand_seg_buf := None,
           final := (final (eval_cache cache))\<lparr>proc_buf := None, proc_hairs := None,
              attributes_buf := map (\<lambda>_. None) (attributes_buf (final (eval_cache cache))),
              attr_used := []\<rparr>,
           proc_attributes_buf := map (\<lambda>_. None) (proc_attributes_buf (eval_cache cache))\<rparr>,
        edit_points_pos := None, edit_points_data := None, edit_points_selection := None,
        edit_handles_ibo := None, edit_points := None, edit_handles := None,
        sculpt_cage_ibo := None, sculpt_cage := None, edit_curves_lines_pos := None,
        edit_curves_lines_ibo := None, edit_curves_lines := None\<rparr>)\<rparr>,
      g\<lparr>gpu_live := gpu_live g - cache_bufs cache\<rparr>)"
proof -
  assume c: "batch_cache curves = Some cache"
  have sets: "gpu_live g
        - (topology_bufs (eval_cache cache) \<union> final_bufs (final (eval_cache cache))
           \<union> handles (proc_attributes_buf (eval_cache cache)))
        - edit_bufs cache = gpu_live g - cache_bufs cache"
    by (auto simp: cache_bufs_def)
  have e: "\<And>ec. edit_bufs (cache\<lparr>eval_cache := ec\<rparr>) = edit_bufs cache"
    by (simp add: edit_bufs_def)
  show ?thesis
    unfolding clear_batch_cache_def clear_eval_data_eq clear_edit_data_eq Let_def c
    using sets by (simp add: e)
qed

section \<open>Validation\<close>

text \<open>
  Claim C1. \<open>DRW_curves_batch_cache_validate\<close> on a cache that exists with its flag
  false returns the state as it was: no tier is touched. On a cache whose flag is true
  it releases every GPU object of the topology, final, attribute and edit tiers and leaves
  the value-initialised cache with the flag false. Validating the result again changes
  nothing, so two calls in a row do what one call does.
\<close>

theorem validate_idempotent:
  "(batch_cache curves = Some cache \<and> \<not> is_dirty cache \<longrightarrow>
      DRW_curves_batch_cache_validate M curves g = (curves, g))
   \<and> (batch_cache curves = Some cache \<and> is_dirty cache \<longrightarrow>
      DRW_curves_batch_cache_validate M curves g =
        (curves\<lparr>batch_cache := Some (zero_batch_cache M)\<rparr>,
         g\<lparr>gpu_live := gpu_live g - cache_bufs cache\<rparr>))
   \<and> (case DRW_curves_batch_cache_validate M curves g of (curves', g') \<Rightarrow>
        DRW_curves_batch_cache_validate M curves' g' = (curves', g'))"
proof (intro conjI impI)
  assume "batch_cache curves = Some cache \<and> \<not> is_dirty cache"
  then show "DRW_curves_batch_cache_validate M curves g = (curves, g)"
    by (simp add: DRW_curves_batch_cache_validate_def batch_cache_is_dirty_def)
next
  assume a: "batch_cache curves = Some cache \<and> is_dirty cache"
  then show "DRW_curves_batch_cache_validate M curves g =
        (curves\<lparr>batch_cache := Some (zero_batch_cache M)\<rparr>,
         g\<lparr>gpu_live := gpu_live g - cache_bufs cache\<rparr>)"
    by (simp add: DRW_curves_batch_cache_validate_def batch_cache_is_dirty_def
        clear_batch_cache_Some init_batch_cache_def zero_batch_cache_def)
next
  have valid: "\<And>c h. batch_cache_is_dirty (init_batch_cache M c)"
    by (simp add: batch_cache_is_dirty_def init_batch_cache_def Let_def)
  show "case DRW_curves_batch_cache_validate M curves g of (curves', g') \<Rightarrow>
        DRW_curves_batch_cache_validate M curves' g' = (curves', g')"
  proof (cases "batch_cache_is_dirty curves")
    case True
    then show ?thesis by (simp add: DRW_curves_batch_cache_validate_def)
  next
    case False
    then show ?thesis
      by (simp add: DRW_curves_batch_cache_validate_def valid split: prod.splits)
  qed
qed

theorem validate_idempotent_witness:
  "batch_cache (ex_curves (Some ex_cache)) = Some ex_cache \<and> \<not> is_dirty ex_cache
   \<and> DRW_curves_batch_cache_validate 2 (ex_curves (Some ex_cache)) ex_gpu
       = (ex_curves (Some ex_cache), ex_gpu)
   \<and> batch_cache (ex_curves (Some (ex_cache\<lparr>is_dirty := True\<rparr>)))
       = Some (ex_cache\<lparr>is_dirty := True\<rparr>)
   \<and> is_dirty (ex_cache\<lparr>is_dirty := True\<rparr>)
   \<and> DRW_curves_batch_cache_validate 2 (ex_curves (Some (ex_cache\<lparr>is_dirty := True\<rparr>))) ex_gpu
       = (ex_curves (Some (zero_batch_cache 2)), \<lparr>gpu_live = {6}, gpu_next = 7\<rparr>)"
proof -
  have bufs: "gpu_live ex_gpu - cache_bufs (ex_cache\<lparr>is_dirty := True\<rparr>) = {6}"
    by (auto simp: ex_gpu_def ex_cache_def cache_bufs_def topology_bufs_def final_bufs_def
        edit_bufs_def)
  show ?thesis
    using validate_idempotent [of "ex_curves (Some ex_cache)" ex_cache 2 ex_gpu]
      validate_idempotent [of "ex_curves (Some (ex_cache\<lparr>is_dirty := True\<rparr>))"
        "ex_cache\<lparr>is_dirty := True\<rparr>" 2 ex_gpu] bufs
    by (simp add: ex_curves_def ex_cache_def ex_gpu_def)
qed

section \<open>Dirty tagging on a geometry with and without a cache\<close>

text \<open>
  Claim C9 as stated fails on a geometry that has no cache: the call returns before it
  looks at the mode, so no flag is set for mode "all" and no assertion fires for any
  other mode.
\<close>

theorem dirty_tag_counterexample:
  "DRW_curves_batch_cache_dirty_tag 0 (ex_curves None) 0 = Inr (ex_curves None)
   \<and> batch_cache (ex_curves None) = None
   \<and> DRW_curves_batch_cache_dirty_tag 0 (ex_curves None) 1 \<noteq> Inl AssertUnreachable"
  by (simp add: DRW_curves_batch_cache_dirty_tag_def ex_curves_def)

text \<open>
  Claim C9, amended. On a geometry that has a cache, \<open>DRW_curves_batch_cache_dirty_tag\<close>
  with the mode "all" sets the flag to true whatever the cache held, and any other mode
  ends in the fatal assertion. On a geometry without a cache the call does nothing, for
  every mode.
\<close>

theorem dirty_tag_with_cache:
  "(batch_cache curves = Some cache \<longrightarrow>
      DRW_curves_batch_cache_dirty_tag DIRTY_ALL curves DIRTY_ALL
        = Inr (curves\<lparr>batch_cache := Some (cache\<lparr>is_dirty := True\<rparr>)\<rparr>)
      \<and> (mode \<noteq> DIRTY_ALL \<longrightarrow> DRW_curves_batch_cache_dirty_tag DIRTY_ALL curves mode = Inl AssertUnreachable))
   \<and> (batch_cache curves = None \<longrightarrow> DRW_curves_batch_cache_dirty_tag DIRTY_ALL curves mode = Inr curves)"
  by (simp add: DRW_curves_batch_cache_dirty_tag_def)

theorem dirty_tag_with_cache_witness:
  "batch_cache (ex_curves (Some ex_cache)) = Some ex_cache
   \<and> DRW_curves_batch_cache_dirty_tag 0 (ex_curves (Some ex_cache)) 0
       = Inr (ex_curves (Some (ex_cache\<lparr>is_dirty := True\<rparr>)))
   \<and> (1::int) \<noteq> 0
   \<and> DRW_curves_batch_cache_dirty_tag 0 (ex_curves (Some ex_cache)) 1 = Inl AssertUnreachable
   \<and> batch_cache (ex_curves None) = None
   \<and> DRW_curves_batch_cache_dirty_tag 0 (ex_curves None) 1 = Inr (ex_curves None)"
  using dirty_tag_with_cache [of "ex_curves (Some ex_cache)" ex_cache 0 1]
    dirty_tag_with_cache [of "ex_curves None" ex_cache 0 1]
  by (simp add: ex_curves_def)

section \<open>Independent invalidation of the final tier\<close>

text \<open>
  Claim C8. When the requested subdivision or thickness resolution differs from the cached
  one, the settings step of \<open>curves_ensure_procedural_data\<close> nulls the final tier
  (\<open>proc_buf\<close>, \<open>proc_hairs\<close> and every slot of \<open>final.attributes_buf\<close>) and releases
  exactly the GPU objects of that tier. The position, length, strand and segment buffers
  and the control-point attribute buffers are the ones they were.
\<close>

theorem settings_change_clears_final_tier_only:
  "hair_subdiv (final ec) \<noteq> subdiv \<or> thickres (final ec) \<noteq> thickness_res \<Longrightarrow>
   curves_ensure_procedural_data_settings ec subdiv thickness_res g = (ec', g') \<Longrightarrow>
     proc_buf (final ec') = None \<and> proc_hairs (final ec') = None
     \<and> attributes_buf (final ec') = replicate (length (attributes_buf (final ec))) None
     \<and> gpu_live g' = gpu_live g - final_bufs (final ec) \<and> gpu_next g' = gpu_next g
     \<and> proc_point_buf ec' = proc_point_buf ec \<and> proc_length_buf ec' = proc_length_buf ec
     \<and> proc_strand_buf ec' = proc_strand_buf ec
     \<and> proc_strand_seg_buf ec' = proc_strand_seg_buf ec
     \<and> proc_attributes_buf ec' = proc_attributes_buf ec
     \<and> attr_used (final ec') = attr_used (final ec)
     \<and> hair_subdiv (final ec') = subdiv \<and> thickres (final ec') = thickness_res"
  by (auto simp: curves_ensure_procedural_data_settings_def clear_final_data_eq map_replicate_const)

theorem settings_change_clears_final_tier_only_witness:
  "hair_subdiv (final (eval_cache ex_cache)) \<noteq> 2
   \<and> curves_ensure_procedural_data_settings (eval_cache ex_cache) 2 1 ex_gpu
       = ((eval_cache ex_cache)\<lparr>final := (final (eval_cache ex_cache))
             \<lparr>proc_buf := None, attributes_buf := [None, None], hair_subdiv := 2\<rparr>\<rparr>,
          \<lparr>gpu_live = {0, 1, 4, 5, 6}, gpu_next = 7\<rparr>)
   \<and> proc_point_buf (eval_cache ex_cache) = Some 0
   \<and> proc_attributes_buf (eval_cache ex_cache) = [Some 4, None]"
proof -
  have h: "hair_subdiv (final (eval_cache ex_cache)) \<noteq> 2 \<or> thickres (final (eval_cache ex_cache)) \<noteq> 1"
    by (simp add: ex_cache_def)
  obtain ec' g' where r:
    "curves_ensure_procedural_data_settings (eval_cache ex_cache) 2 1 ex_gpu = (ec', g')"
    by (cases "curves_ensure_procedural_data_settings (eval_cache ex_cache) 2 1 ex_gpu")
  have live: "{0, 1, 2, 3, 4, 5, 6} - final_bufs (final (eval_cache ex_cache)) = {0, 1, 4, 5, 6::nat}"
    by (auto simp: final_bufs_def ex_cache_def)
  from settings_change_clears_final_tier_only [OF h r] live
  have "gpu_live g' = {0, 1, 4, 5, 6}" and "gpu_next g' = 7"
    by (simp_all add: ex_gpu_def)
  moreover have "ec' = (eval_cache ex_cache)\<lparr>final := (final (eval_cache ex_cache))
             \<lparr>proc_buf := None, attributes_buf := [None, None], hair_subdiv := 2\<rparr>\<rparr>"
    using r by (simp add: curves_ensure_procedural_data_settings_def clear_final_data_eq
        ex_cache_def)
  moreover have "hair_subdiv (final (eval_cache ex_cache)) \<noteq> 2"
    by (simp add: ex_cache_def)
  ultimately show ?thesis
    using r by (simp add: ex_cache_def)
qed

section \<open>Eviction by age\<close>

text \<open>
  Claim C6 as stated fails: the attribute \<open>radius\<close> is in the live set \<open>attr_used\<close> and its
  two buffers (objects 3 and 4) are released all the same once the timeout has passed
  without a match, and the live set is emptied.
\<close>

theorem free_old_counterexample:
  "attr_used (final (eval_cache ex_cache)) = [ex_request ''radius'' Point]
   \<and> attributes_buf (final (eval_cache ex_cache)) = [Some 3, None]
   \<and> proc_attributes_buf (eval_cache ex_cache) = [Some 4, None]
   \<and> DRW_curves_batch_cache_free_old 10 (ex_curves (Some ex_cache)) 100 ex_gpu
       = (ex_curves (Some (ex_cache\<lparr>eval_cache := (eval_cache ex_cache)
            \<lparr>proc_attributes_buf := [None, None],
             final := (final (eval_cache ex_cache))
                \<lparr>attributes_buf := [None, None], attr_used := []\<rparr>\<rparr>\<rparr>)),
          \<lparr>gpu_live = {0, 1, 2, 5, 6}, gpu_next = 7\<rparr>)"
proof -
  have "{0, 1, 2, 3, 4, 5, 6} - {3, 4} = {0, 1, 2, 5, 6::nat}" by auto
  then show ?thesis
    by (simp add: DRW_curves_batch_cache_free_old_def ex_curves_def ex_cache_def ex_gpu_def
        drw_attributes_overlap_def drw_attributes_clear_def discard_attributes_eq Let_def)
qed

text \<open>
  Claim C6, amended. Let \<open>t\<close> be the current time when every live request is in the
  over-time set, and the last matching time otherwise. While \<open>ctime - t\<close> does not exceed
  the timeout, \<open>DRW_curves_batch_cache_free_old\<close> keeps every attribute buffer and the
  live set; once it exceeds the timeout, every attribute buffer of both tiers is released
  and the live set is cleared, live requests included. Both ways the over-time set is
  cleared and \<open>t\<close> is stored as the last matching time.
\<close>

theorem free_old_evicts_all_or_nothing:
  "batch_cache curves = Some cache \<Longrightarrow>
   ec = eval_cache cache \<Longrightarrow>
   t = (if drw_attributes_overlap (attr_used_over_time (final ec)) (attr_used (final ec))
        then ctime else last_attr_matching_time (final ec)) \<Longrightarrow>
     (ctime - t \<le> vbotimeout \<longrightarrow>
        DRW_curves_batch_cache_free_old vbotimeout curves ctime g
          = (curves\<lparr>batch_cache := Some (cache\<lparr>eval_cache := ec\<lparr>final := (final ec)
               \<lparr>last_attr_matching_time := t, attr_used_over_time := []\<rparr>\<rparr>\<rparr>)\<rparr>, g))
     \<and> (ctime - t > vbotimeout \<longrightarrow>
        DRW_curves_batch_cache_free_old vbotimeout curves ctime g
          = (curves\<lparr>batch_cache := Some (cache\<lparr>eval_cache := ec
               \<lparr>proc_attributes_buf := replicate (length (proc_attributes_buf ec)) None,
                final := (final ec)
                  \<lparr>last_attr_matching_time := t, attr_used_over_time := [],
                   attributes_buf := replicate (length (attributes_buf (final ec))) None,
                   attr_used := []\<rparr>\<rparr>\<rparr>)\<rparr>,
             g\<lparr>gpu_live := gpu_live g
                  - (handles (proc_attributes_buf ec) \<union> handles (attributes_buf (final ec)))\<rparr>))"
  by (simp add: DRW_curves_batch_cache_free_old_def drw_attributes_clear_def
      discard_attributes_eq Let_def map_replicate_const)


theorem free_old_evicts_all_or_nothing_witness:
  "batch_cache (ex_curves (Some ex_cache)) = Some ex_cache
   \<and> \<not> drw_attributes_overlap (attr_used_over_time (final (eval_cache ex_cache)))
         (attr_used (final (eval_cache ex_cache)))
   \<and> (5::int) - last_attr_matching_time (final (eval_cache ex_cache)) \<le> 10
   \<and> DRW_curves_batch_cache_free_old 10 (ex_curves (Some ex_cache)) 5 ex_gpu
       = (ex_curves (Some ex_cache), ex_gpu)
   \<and> (100::int) - last_attr_matching_time (final (eval_cache ex_cache)) > 10
   \<and> DRW_curves_batch_cache_free_old 10 (ex_curves (Some ex_cache)) 100 ex_gpu
       = (ex_curves (Some (ex_cache\<lparr>eval_cache := (eval_cache ex_cache)
            \<lparr>proc_attributes_buf := [None, None],
             final := (final (eval_cache ex_cache))
                \<lparr>attributes_buf := [None, None], attr_used := []\<rparr>\<rparr>\<rparr>)),
          \<lparr>gpu_live = {0, 1, 2, 5, 6}, gpu_next = 7\<rparr>)"
proof -
  have c: "batch_cache (ex_curves (Some ex_cache)) = Some ex_cache"
    by (simp add: ex_curves_def)
  have n: "\<not> drw_attributes_overlap (attr_used_over_time (final (eval_cache ex_cache)))
         (attr_used (final (eval_cache ex_cache)))"
    by (simp add: drw_attributes_overlap_def ex_cache_def)
  have t: "last_attr_matching_time (final (eval_cache ex_cache)) =
      (if drw_attributes_overlap (attr_used_over_time (final (eval_cache ex_cache)))
            (attr_used (final (eval_cache ex_cache)))
       then ctime else last_attr_matching_time (final (eval_cache ex_cache)))" for ctime
    using n by simp
  have live: "{0, 1, 2, 3, 4, 5, 6} - {3, 4} = {0, 1, 2, 5, 6::nat}" by auto
  have z: "last_attr_matching_time (final (eval_cache ex_cache)) = 0"
    by (simp add: ex_cache_def)
  from free_old_evicts_all_or_nothing [OF c refl t, of 5 10 ex_gpu]
  have keep: "DRW_curves_batch_cache_free_old 10 (ex_curves (Some ex_cache)) 5 ex_gpu
       = (ex_curves (Some ex_cache), ex_gpu)"
    by (simp add: z) (simp add: ex_curves_def ex_cache_def)
  from free_old_evicts_all_or_nothing [OF c refl t, of 100 10 ex_gpu] live
  have evict: "DRW_curves_batch_cache_free_old 10 (ex_curves (Some ex_cache)) 100 ex_gpu
       = (ex_curves (Some (ex_cache\<lparr>eval_cache := (eval_cache ex_cache)
            \<lparr>proc_attributes_buf := [None, None],
             final := (final (eval_cache ex_cache))
                \<lparr>attributes_buf := [None, None], attr_used := []\<rparr>\<rparr>\<rparr>)),
          \<lparr>gpu_live = {0, 1, 2, 5, 6}, gpu_next = 7\<rparr>)"
    by (simp add: z) (simp add: ex_curves_def ex_cache_def ex_gpu_def)
  show ?thesis using c n keep evict by (simp add: z)
qed

section \<open>Lookup of an evaluated attribute\<close>

lemma init_batch_cache_result:
  "geometry (init_batch_cache M c) = geometry c
   \<and> (\<exists>c'. batch_cache (init_batch_cache M c) = Some c' \<and> \<not> is_dirty c'
          \<and> eval_cache c' = zero_eval_cache M)"
  by (cases "batch_cache c") (simp_all add: init_batch_cache_def Let_def zero_batch_cache_def)

lemma clear_batch_cache_geometry:
  "clear_batch_cache curves g = (curves', g') \<Longrightarrow> geometry curves' = geometry curves"
  by (cases "batch_cache curves")
     (auto simp: clear_batch_cache_def Let_def split: prod.splits)

lemma validate_cache_exists:
  assumes "DRW_curves_batch_cache_validate M curves g = (curves', g')"
  shows "geometry curves' = geometry curves
     \<and> (\<exists>c'. batch_cache curves' = Some c' \<and> \<not> is_dirty c'
          \<and> (batch_cache curves = Some c' \<or> eval_cache c' = zero_eval_cache M))"
proof (cases "batch_cache_is_dirty curves")
  case True
  then have "curves' = curves"
    using assms by (simp add: DRW_curves_batch_cache_validate_def)
  with True show ?thesis
    by (auto simp: batch_cache_is_dirty_def split: option.splits)
next
  case False
  obtain c1 g1 where c: "clear_batch_cache curves g = (c1, g1)"
    by (cases "clear_batch_cache curves g")
  with False assms have r: "curves' = init_batch_cache M c1"
    by (simp add: DRW_curves_batch_cache_validate_def)
  from init_batch_cache_result [of M c1] r clear_batch_cache_geometry [OF c]
  show ?thesis by auto
qed

lemma validate_valid:
  "batch_cache curves = Some c \<Longrightarrow> \<not> is_dirty c \<Longrightarrow>
   DRW_curves_batch_cache_validate M curves g = (curves, g)"
  by (simp add: DRW_curves_batch_cache_validate_def batch_cache_is_dirty_def)

lemma request_index_None:
  "request_index name rs = None \<longleftrightarrow> name \<notin> attribute_name ` set rs"
  by (induction rs) auto

lemma request_index_Some:
  "request_index name rs = Some i \<longleftrightarrow>
     i < length rs \<and> attribute_name (rs ! i) = name \<and> (\<forall>j<i. attribute_name (rs ! j) \<noteq> name)"
proof (induction rs arbitrary: i)
  case Nil
  show ?case by simp
next
  case (Cons r rs)
  show ?case
  proof (cases "attribute_name r = name")
    case True
    then show ?thesis by (cases i) auto
  next
    case False
    show ?thesis
    proof (cases i)
      case 0
      with False show ?thesis by auto
    next
      case (Suc k)
      have "(\<forall>j<Suc k. attribute_name ((r # rs) ! j) \<noteq> name)
          \<longleftrightarrow> (\<forall>j<k. attribute_name (rs ! j) \<noteq> name)"
        using False by (auto simp: less_Suc_eq_0_disj)
      with False Suc Cons.IH [of k] show ?thesis by auto
    qed
  qed
qed

text \<open>
  Claim C10. \<open>DRW_curves_texture_for_evaluated_attribute\<close> returns a null pointer and the
  flag false for a name that is neither in the geometry's attribute store nor among the
  names of the materialized requests. When the name is among the requests after the call
  has merged its own request, the first request of that name decides: a point-domain
  request gives the address of its slot in \<open>final.attributes_buf\<close> and the flag true, a
  curve-domain request the address of its slot in \<open>proc_attributes_buf\<close> and the flag false.
\<close>

theorem texture_for_evaluated_attribute:
  assumes r: "DRW_curves_texture_for_evaluated_attribute M curves name g
                = (ptr, is_point_domain, curves', g')"
    and u: "used = attr_used (final (eval_cache (the_batch_cache curves')))"
  shows "(lookup_meta_data (geometry curves) name = None
          \<and> (\<forall>cache. batch_cache curves = Some cache \<longrightarrow>
                name \<notin> attribute_name ` set (attr_used (final (eval_cache cache))))
          \<longrightarrow> ptr = None \<and> is_point_domain = False)
     \<and> (\<forall>i. i < length used \<and> attribute_name (used ! i) = name
              \<and> (\<forall>j<i. attribute_name (used ! j) \<noteq> name) \<longrightarrow>
            (domain (used ! i) = Point \<longrightarrow>
               ptr = Some (Final_attributes_buf i) \<and> is_point_domain = True)
          \<and> (domain (used ! i) = Curve \<longrightarrow>
               ptr = Some (Proc_attributes_buf i) \<and> is_point_domain = False))"
proof (intro conjI allI impI)
  obtain c1 g1 where v1: "DRW_curves_batch_cache_validate M curves g = (c1, g1)"
    by (cases "DRW_curves_batch_cache_validate M curves g")
  obtain c2 g2 where ra: "request_attribute M c1 name g1 = (c2, g2)"
    by (cases "request_attribute M c1 name g1")
  have res: "(ptr, is_point_domain, curves', g') =
      (case request_index name (attr_used (final (eval_cache (the_batch_cache c2)))) of
         None \<Rightarrow> (None, False, c2, g2)
       | Some request_i \<Rightarrow>
           (case domain (attr_used (final (eval_cache (the_batch_cache c2))) ! request_i) of
              Point \<Rightarrow> (Some (Final_attributes_buf request_i), True, c2, g2)
            | Curve \<Rightarrow> (Some (Proc_attributes_buf request_i), False, c2, g2)))"
    using r v1 ra
    by (simp add: DRW_curves_texture_for_evaluated_attribute_def get_batch_cache_def Let_def)
  have c2: "curves' = c2"
    using res by (auto split: option.splits AttrDomain.splits)
  {
    assume a: "lookup_meta_data (geometry curves) name = None
          \<and> (\<forall>cache. batch_cache curves = Some cache \<longrightarrow>
                name \<notin> attribute_name ` set (attr_used (final (eval_cache cache))))"
    from validate_cache_exists [OF v1] obtain k where k: "geometry c1 = geometry curves"
      "batch_cache c1 = Some k" "\<not> is_dirty k"
      "batch_cache curves = Some k \<or> eval_cache k = zero_eval_cache M"
      by blast
    have "request_attribute M c1 name g1 = (c1, g1)"
      using a k validate_valid [OF k(2) k(3)]
      by (simp add: request_attribute_def get_batch_cache_def Let_def)
    with ra have "c2 = c1" by simp
    moreover have "name \<notin> attribute_name ` set (attr_used (final (eval_cache k)))"
      using a k(4) by (auto simp: zero_eval_cache_def zero_final_cache_def)
    ultimately have "request_index name (attr_used (final (eval_cache (the_batch_cache c2)))) = None"
      using k(2) by (simp add: request_index_None the_batch_cache_def)
    with res show "ptr = None" and "is_point_domain = False" by simp_all
  }
  {
    fix i
    assume "i < length used \<and> attribute_name (used ! i) = name
              \<and> (\<forall>j<i. attribute_name (used ! j) \<noteq> name)"
    then have ri: "request_index name (attr_used (final (eval_cache (the_batch_cache c2)))) = Some i"
      using u c2 by (simp add: request_index_Some)
    {
      assume "domain (used ! i) = Point"
      with ri res u c2 show "ptr = Some (Final_attributes_buf i)" and "is_point_domain = True"
        by simp_all
    }
    {
      assume "domain (used ! i) = Curve"
      with ri res u c2 show "ptr = Some (Proc_attributes_buf i)" and "is_point_domain = False"
        by simp_all
    }
  }
qed


lemmas ex_eval = DRW_curves_texture_for_evaluated_attribute_def get_batch_cache_def
  DRW_curves_batch_cache_validate_def batch_cache_is_dirty_def request_attribute_def
  drw_attributes_merge_def drw_attributes_add_request_def the_batch_cache_def
  put_batch_cache_def ex_curves_def ex_cache_def ex_geometry_def ex_request_def Let_def

theorem texture_for_evaluated_attribute_witness:
  "DRW_curves_texture_for_evaluated_attribute 2 (ex_curves (Some ex_cache)) ''missing'' ex_gpu
     = (None, False, ex_curves (Some ex_cache), ex_gpu)
   \<and> lookup_meta_data (geometry (ex_curves (Some ex_cache))) ''missing'' = None
   \<and> ''missing'' \<notin> attribute_name ` set (attr_used (final (eval_cache ex_cache)))
   \<and> DRW_curves_texture_for_evaluated_attribute 2 (ex_curves (Some ex_cache)) ''radius'' ex_gpu
     = (Some (Final_attributes_buf 0), True, ex_curves (Some ex_cache), ex_gpu)
   \<and> domain (attr_used (final (eval_cache ex_cache)) ! 0) = Point
   \<and> attribute_name (attr_used (final (eval_cache ex_cache)) ! 0) = ''radius''
   \<and> fst (DRW_curves_texture_for_evaluated_attribute 2 (ex_curves (Some ex_cache)) ''tilt'' ex_gpu)
     = Some (Proc_attributes_buf 1)
   \<and> fst (snd (DRW_curves_texture_for_evaluated_attribute 2 (ex_curves (Some ex_cache)) ''tilt''
        ex_gpu)) = False"
proof -
  have m: "DRW_curves_texture_for_evaluated_attribute 2 (ex_curves (Some ex_cache)) ''missing'' ex_gpu
     = (None, False, ex_curves (Some ex_cache), ex_gpu)"
    by (simp add: ex_eval)
  have r: "DRW_curves_texture_for_evaluated_attribute 2 (ex_curves (Some ex_cache)) ''radius'' ex_gpu
     = (Some (Final_attributes_buf 0), True, ex_curves (Some ex_cache), ex_gpu)"
    by (simp add: ex_eval)
  obtain p b c' g' where t:
    "DRW_curves_texture_for_evaluated_attribute 2 (ex_curves (Some ex_cache)) ''tilt'' ex_gpu
       = (p, b, c', g')"
    by (cases "DRW_curves_texture_for_evaluated_attribute 2 (ex_curves (Some ex_cache)) ''tilt'' ex_gpu")
  then have u: "attr_used (final (eval_cache (the_batch_cache c')))
      = [ex_request ''radius'' Point, ex_request ''tilt'' Curve]"
    by (auto simp: ex_eval)
  have "p = Some (Proc_attributes_buf 1) \<and> b = False"
    using texture_for_evaluated_attribute [OF t refl, THEN conjunct2, rule_format, of 1] u
    by (simp add: ex_request_def)
  moreover have "lookup_meta_data (geometry (ex_curves (Some ex_cache))) ''missing'' = None"
    "''missing'' \<notin> attribute_name ` set (attr_used (final (eval_cache ex_cache)))"
    "domain (attr_used (final (eval_cache ex_cache)) ! 0) = Point"
    "attribute_name (attr_used (final (eval_cache ex_cache)) ! 0) = ''radius''"
    by (simp_all add: ex_curves_def ex_geometry_def ex_cache_def ex_request_def)
  ultimately show ?thesis
    using m r t texture_for_evaluated_attribute [OF m refl] by simp
qed

section \<open>Reconciliation of attribute buffers\<close>



































section \<open>Layout of the line index buffers\<close>

lemma fill_from:
  "base + m \<le> length d \<Longrightarrow>
   fold (\<lambda>i d. d[base + i := f i]) [0..<m] d = take base d @ map f [0..<m] @ drop (base + m) d"
proof (induction m)
  case 0
  show ?case by simp
next
  case (Suc m)
  then have le: "base + m < length d" by simp
  have "fold (\<lambda>i d. d[base + i := f i]) [0..<Suc m] d
      = (take base d @ map f [0..<m] @ drop (base + m) d)[base + m := f m]"
    using Suc by simp
  also have "\<dots> = take base d @ map f [0..<m] @ (drop (base + m) d)[0 := f m]"
    using le by (simp add: list_update_append)
  also have "(drop (base + m) d)[0 := f m] = f m # drop (Suc (base + m)) d"
    using le by (metis Cons_nth_drop_Suc list_update_code(2))
  finally show ?case by simp
qed


lemma fill_points_eq:
  assumes "length pre = ir_start ibo_range" "ir_size points \<le> r"
  shows "fill_points points ibo_range (pre @ replicate r None)
     = pre @ map (\<lambda>i. Some (of_nat (ir_start points + i))) [0..<ir_size points]
         @ replicate (r - ir_size points) None"
proof -
  have "fill_points points ibo_range (pre @ replicate r None)
      = fold (\<lambda>i d. d[length pre + i := Some (of_nat (ir_start points + i))])
          [0..<ir_size points] (pre @ replicate r None)"
    using assms(1) by (simp add: fill_points_def ir_nth_def index_range_def)
  also have "\<dots> = take (length pre) (pre @ replicate r None)
      @ map (\<lambda>i. Some (of_nat (ir_start points + i))) [0..<ir_size points]
      @ drop (length pre + ir_size points) (pre @ replicate r None)"
    using assms(2) by (intro fill_from) simp
  finally show ?thesis by simp
qed

lemma map_offset_upt: "map (\<lambda>i. f (a + i)) [0..<b - a] = map f [a..<b]"
proof -
  have "map (\<lambda>i. f (a + i)) [0..<b - a] = map f (map (\<lambda>i. i + a) [0..<b - a])"
    by (simp add: add.commute)
  also have "map (\<lambda>i. i + a) [0..<b - a] = [a..<b]"
    by (cases "a \<le> b") (simp_all add: map_add_upt)
  finally show ?thesis .
qed

lemma replicate_update_0: "0 < r \<Longrightarrow> (replicate r x)[0 := y] = y # replicate (r - 1) x"
  by (cases r) simp_all

lemma no_cyclic_curve_eq:
  assumes "length pre = points_by_curve ! curve + curve"
    and "points_by_curve ! Suc curve - points_by_curve ! curve + 1 \<le> r"
  shows "no_cyclic_curve R points_by_curve curve (pre @ replicate r None)
     = pre @ (point_indices points_by_curve curve @ [Some R])
         @ replicate (r - (points_by_curve ! Suc curve - points_by_curve ! curve + 1)) None"
proof -
  let ?points = "curve_points points_by_curve curve"
  let ?n = "points_by_curve ! Suc curve - points_by_curve ! curve"
  let ?range = "(ir_start ?points + curve, ir_size ?points + 1)"
  have p: "ir_start ?points = points_by_curve ! curve" "ir_size ?points = ?n"
    by (simp_all add: curve_points_def ir_start_def ir_size_def)
  have s: "ir_start ?range = points_by_curve ! curve + curve"
    by (simp add: ir_start_def curve_points_def)
  have "fill_points ?points ?range (pre @ replicate r None)
      = pre @ map (\<lambda>i. Some (of_nat (ir_start ?points + i))) [0..<ir_size ?points]
          @ replicate (r - ir_size ?points) None"
    by (rule fill_points_eq) (use assms s p in simp_all)
  then have f: "fill_points ?points ?range (pre @ replicate r None)
      = pre @ point_indices points_by_curve curve @ replicate (r - ?n) None"
    unfolding p map_offset_upt [of "\<lambda>p. Some (of_nat p)"] point_indices_def .
  have l: "ir_last ?range 0 = length (pre @ point_indices points_by_curve curve)"
    using assms(1) by (simp add: ir_last_def ir_start_def ir_size_def curve_points_def point_indices_def)
  have "no_cyclic_curve R points_by_curve curve (pre @ replicate r None)
      = (pre @ point_indices points_by_curve curve @ replicate (r - ?n) None)
          [length (pre @ point_indices points_by_curve curve) := Some R]"
    unfolding no_cyclic_curve_def Let_def f l ..
  also have "\<dots> = (pre @ point_indices points_by_curve curve)
       @ (replicate (r - ?n) None)[0 := Some R]"
    by (simp add: list_update_append)
  also have "(replicate (r - ?n) None)[0 := Some R] = Some R # replicate (r - ?n - 1) None"
    using assms(2) by (intro replicate_update_0) simp
  finally show ?thesis by simp
qed

lemma with_cyclic_curve_eq:
  assumes "length pre = points_by_curve ! curve + curve * 2"
    and "points_by_curve ! Suc curve - points_by_curve ! curve + 2 \<le> r"
  shows "with_cyclic_curve R points_by_curve cyclic curve (pre @ replicate r None)
     = pre @ (point_indices points_by_curve curve
              @ [Some (if cyclic ! curve then of_nat (points_by_curve ! curve) else R), Some R])
         @ replicate (r - (points_by_curve ! Suc curve - points_by_curve ! curve + 2)) None"
proof -
  let ?points = "curve_points points_by_curve curve"
  let ?n = "points_by_curve ! Suc curve - points_by_curve ! curve"
  let ?range = "(points_by_curve ! curve + curve * 2, ?n + 2)"
  let ?c = "Some (if cyclic ! curve then of_nat (points_by_curve ! curve) else R)"
  let ?pts = "point_indices points_by_curve curve"
  have p: "ir_start ?points = points_by_curve ! curve" "ir_size ?points = ?n"
    "ir_first ?points = points_by_curve ! curve"
    by (simp_all add: curve_points_def ir_start_def ir_size_def ir_first_def)
  have s: "ir_start ?range = points_by_curve ! curve + curve * 2"
    by (simp add: ir_start_def curve_points_def)
  have "fill_points ?points ?range (pre @ replicate r None)
      = pre @ map (\<lambda>i. Some (of_nat (ir_start ?points + i))) [0..<ir_size ?points]
          @ replicate (r - ir_size ?points) None"
    by (rule fill_points_eq) (use assms s p in simp_all)
  then have f: "fill_points ?points ?range (pre @ replicate r None)
      = pre @ ?pts @ replicate (r - ?n) None"
    unfolding p map_offset_upt [of "\<lambda>p. Some (of_nat p)"] point_indices_def .
  have l1: "ir_last ?range 1 = length (pre @ ?pts)"
    using assms(1) by (simp add: ir_last_def ir_start_def ir_size_def curve_points_def point_indices_def)
  have l0: "ir_last ?range 0 = Suc (length (pre @ ?pts))"
    using assms(1) by (simp add: ir_last_def ir_start_def ir_size_def curve_points_def point_indices_def)
  have "with_cyclic_curve R points_by_curve cyclic curve (pre @ replicate r None)
      = (pre @ ?pts @ replicate (r - ?n) None)
          [length (pre @ ?pts) := ?c, Suc (length (pre @ ?pts)) := Some R]"
    unfolding with_cyclic_curve_def Let_def f l1 l0 p ..
  also have "\<dots> = (pre @ ?pts) @ (replicate (r - ?n) None)[0 := ?c, Suc 0 := Some R]"
    by (simp add: list_update_append)
  also have "(replicate (r - ?n) None)[0 := ?c, Suc 0 := Some R]
      = ?c # Some R # replicate (r - ?n - 2) None"
  proof -
    from assms(2) have "2 \<le> r - ?n" by simp
    then obtain q where "r - ?n = Suc (Suc q)"
      by (metis add_2_eq_Suc le_Suc_ex)
    then show ?thesis by simp
  qed
  finally show ?thesis by simp
qed


lemma fold_chunks:
  fixes step :: "nat \<Rightarrow> 'a option list \<Rightarrow> 'a option list"
  assumes step: "\<And>c pre r. c < n \<Longrightarrow> length pre = L c \<Longrightarrow> length (chunk c) \<le> r \<Longrightarrow>
            step c (pre @ replicate r None) = pre @ chunk c @ replicate (r - length (chunk c)) None"
    and L0: "L 0 = 0"
    and LS: "\<And>c. c < n \<Longrightarrow> L (Suc c) = L c + length (chunk c)"
    and N: "L n \<le> N"
  shows "k \<le> n \<Longrightarrow>
     fold step [0..<k] (replicate N None) = concat (map chunk [0..<k]) @ replicate (N - L k) None
     \<and> length (concat (map chunk [0..<k])) = L k"
proof (induction k)
  case 0
  show ?case by (simp add: L0)
next
  case (Suc k)
  then have k: "k < n" and IH:
    "fold step [0..<k] (replicate N None) = concat (map chunk [0..<k]) @ replicate (N - L k) None"
    "length (concat (map chunk [0..<k])) = L k"
    by simp_all
  have mono: "L a \<le> L b" if "a \<le> b" "b \<le> n" for a b
    using that
  proof (induction b)
    case 0
    then show ?case by simp
  next
    case (Suc b)
    show ?case
    proof (cases "a = Suc b")
      case True
      then show ?thesis by simp
    next
      case False
      with Suc.prems have "a \<le> b" "b \<le> n" "b < n" by simp_all
      with Suc.IH LS [of b] show ?thesis by simp
    qed
  qed
  have "L (Suc k) \<le> L n" using Suc.prems by (intro mono) simp_all
  with N LS [OF k] have room: "length (chunk k) \<le> N - L k" by simp
  have "fold step [0..<Suc k] (replicate N None)
      = step k (concat (map chunk [0..<k]) @ replicate (N - L k) None)"
    by (simp add: IH(1))
  also have "\<dots> = concat (map chunk [0..<k]) @ chunk k
      @ replicate (N - L k - length (chunk k)) None"
    using step [OF k IH(2) room] .
  finally show ?case
    using LS [OF k] IH(2) by simp
qed

lemma slots_concat:
  assumes "c < n" "length (concat (map chunk [0..<c])) = l"
  shows "slots (concat (map chunk [0..<n])) (l, length (chunk c)) = chunk c"
proof -
  have "[0..<n] = [0..<c] @ [c..<n]"
    using upt_add_eq_append [of 0 c "n - c"] assms(1) by simp
  then have "[0..<n] = [0..<c] @ c # [Suc c..<n]"
    using assms(1) by (simp add: upt_conv_Cons)
  then have "concat (map chunk [0..<n])
      = concat (map chunk [0..<c]) @ chunk c @ concat (map chunk [Suc c..<n])"
    by simp
  then show ?thesis
    using assms(2) by (simp add: slots_def ir_start_def ir_size_def)
qed

lemma offsets_ok_nth:
  assumes "offsets_ok offsets" "c < offsets_size offsets"
  shows "offsets ! c \<le> offsets ! Suc c" and "offsets ! 0 = 0"
proof -
  from assms have "Suc c < length offsets" "sorted offsets" "offsets \<noteq> []" "hd offsets = 0"
    by (simp_all add: offsets_ok_def offsets_size_def)
  then show "offsets ! c \<le> offsets ! Suc c" "offsets ! 0 = 0"
    by (simp_all add: sorted_nth_mono hd_conv_nth [symmetric])
qed

lemma offsets_ok_total:
  assumes "offsets_ok offsets"
  shows "total_size offsets = offsets ! offsets_size offsets"
proof (cases "1 < length offsets")
  case True
  with assms show ?thesis
    by (simp add: total_size_def offsets_size_def offsets_ok_def last_conv_nth)
next
  case False
  with assms have "length offsets = 1" "offsets ! 0 = 0"
    by (cases offsets; simp add: offsets_ok_def)+
  with False show ?thesis
    by (simp add: total_size_def offsets_size_def)
qed

lemma length_point_indices:
  "length (point_indices offsets c) = offsets ! Suc c - offsets ! c"
  by (simp add: point_indices_def)

lemma create_lines_ibo_no_cyclic_eq:
  assumes ok: "offsets_ok offsets"
  shows "create_lines_ibo_no_cyclic R offsets
           = concat (map (\<lambda>c. point_indices offsets c @ [Some R]) [0..<offsets_size offsets])"
    and "c \<le> offsets_size offsets \<Longrightarrow>
         length (concat (map (\<lambda>c. point_indices offsets c @ [Some R]) [0..<c]))
           = offsets ! c + c"
proof -
  let ?n = "offsets_size offsets"
  let ?chunk = "\<lambda>c. point_indices offsets c @ [Some R]"
  let ?L = "\<lambda>c. offsets ! c + c"
  let ?N = "total_size offsets + ?n"
  have N: "?N = ?L ?n" using offsets_ok_total [OF ok] by simp
  have inv: "fold (no_cyclic_curve R offsets) [0..<k] (replicate ?N None)
        = concat (map ?chunk [0..<k]) @ replicate (?N - ?L k) None
      \<and> length (concat (map ?chunk [0..<k])) = ?L k" if "k \<le> ?n" for k
  proof (rule fold_chunks [where n = ?n and L = ?L and chunk = ?chunk])
    fix c r and pre :: "32 word option list"
    assume "c < ?n" "length pre = offsets ! c + c" "length (?chunk c) \<le> r"
    then show "no_cyclic_curve R offsets c (pre @ replicate r None)
        = pre @ ?chunk c @ replicate (r - length (?chunk c)) None"
      by (subst no_cyclic_curve_eq) (simp_all add: length_point_indices)
  next
    show "offsets ! 0 + 0 = 0"
      using ok by (cases offsets) (simp_all add: offsets_ok_def)
  next
    fix c assume "c < ?n"
    from offsets_ok_nth(1) [OF ok this]
    show "offsets ! Suc c + Suc c = offsets ! c + c + length (?chunk c)"
      by (simp add: length_point_indices)
  next
    show "?L ?n \<le> ?N" using N by simp
  next
    show "k \<le> ?n" by fact
  qed
  from inv [of ?n] N
  show "create_lines_ibo_no_cyclic R offsets = concat (map ?chunk [0..<?n])"
    by (simp add: create_lines_ibo_no_cyclic_def Let_def)
  show "c \<le> ?n \<Longrightarrow> length (concat (map ?chunk [0..<c])) = offsets ! c + c"
    using inv [of c] by simp
qed

lemma create_lines_ibo_with_cyclic_eq:
  assumes ok: "offsets_ok offsets"
  shows "create_lines_ibo_with_cyclic R offsets cyclic
           = concat (map (\<lambda>c. point_indices offsets c
                @ [Some (if cyclic ! c then of_nat (offsets ! c) else R), Some R])
               [0..<offsets_size offsets])"
    and "c \<le> offsets_size offsets \<Longrightarrow>
         length (concat (map (\<lambda>c. point_indices offsets c
                @ [Some (if cyclic ! c then of_nat (offsets ! c) else R), Some R]) [0..<c]))
           = offsets ! c + c * 2"
proof -
  let ?n = "offsets_size offsets"
  let ?chunk = "\<lambda>c. point_indices offsets c
                @ [Some (if cyclic ! c then of_nat (offsets ! c) else R), Some R]"
  let ?L = "\<lambda>c. offsets ! c + c * 2"
  let ?N = "total_size offsets + ?n * 2"
  have N: "?N = ?L ?n" using offsets_ok_total [OF ok] by simp
  have inv: "fold (with_cyclic_curve R offsets cyclic) [0..<k] (replicate ?N None)
        = concat (map ?chunk [0..<k]) @ replicate (?N - ?L k) None
      \<and> length (concat (map ?chunk [0..<k])) = ?L k" if "k \<le> ?n" for k
  proof (rule fold_chunks [where n = ?n and L = ?L and chunk = ?chunk])
    fix c r and pre :: "32 word option list"
    assume "c < ?n" "length pre = offsets ! c + c * 2" "length (?chunk c) \<le> r"
    then show "with_cyclic_curve R offsets cyclic c (pre @ replicate r None)
        = pre @ ?chunk c @ replicate (r - length (?chunk c)) None"
      by (subst with_cyclic_curve_eq) (simp_all add: length_point_indices)
  next
    show "offsets ! 0 + 0 * 2 = 0"
      using ok by (cases offsets) (simp_all add: offsets_ok_def)
  next
    fix c assume "c < ?n"
    from offsets_ok_nth(1) [OF ok this]
    show "offsets ! Suc c + Suc c * 2 = offsets ! c + c * 2 + length (?chunk c)"
      by (simp add: length_point_indices)
  next
    show "?L ?n \<le> ?N" using N by simp
  next
    show "k \<le> ?n" by fact
  qed
  from inv [of ?n] N
  show "create_lines_ibo_with_cyclic R offsets cyclic = concat (map ?chunk [0..<?n])"
    by (simp add: create_lines_ibo_with_cyclic_def Let_def)
  show "c \<le> ?n \<Longrightarrow> length (concat (map ?chunk [0..<c])) = offsets ! c + c * 2"
    using inv [of c] by simp
qed


text \<open>
  Claim C4. For offsets that start at 0 and do not decrease, the non-cyclic builder emits
  as many indices as there are points and curves together, and the cyclic-aware builder
  one more per curve. Each buffer is the concatenation of its per-curve ranges. The range
  of curve \<open>c\<close> in the non-cyclic buffer starts at \<open>offsets ! c + c\<close>, has
  \<open>segment_count + 2\<close> slots and holds the curve's point indices followed by the restart
  sentinel. In the cyclic-aware buffer it starts at \<open>offsets ! c + 2 * c\<close>, has
  \<open>segment_count + 3\<close> slots and holds the point indices, then the curve's first point
  index when the curve is cyclic and the sentinel otherwise, then the sentinel.
\<close>

theorem lines_ibo_layout:
  assumes ok: "offsets_ok offsets"
    and len: "length cyclic = offsets_size offsets"
  shows "length (create_lines_ibo_no_cyclic R offsets) = total_size offsets + offsets_size offsets
    \<and> create_lines_ibo_no_cyclic R offsets
        = concat (map (\<lambda>c. slots (create_lines_ibo_no_cyclic R offsets)
                            (offsets ! c + c, ir_size (curve_points offsets c) + 1))
                   [0..<offsets_size offsets])
    \<and> (\<forall>c<offsets_size offsets.
          slots (create_lines_ibo_no_cyclic R offsets)
            (offsets ! c + c, ir_size (curve_points offsets c) + 1)
          = point_indices offsets c @ [Some R]
          \<and> int (ir_size (curve_points offsets c) + 1) = segment_count offsets c + 2)
    \<and> length (create_lines_ibo_with_cyclic R offsets cyclic)
        = total_size offsets + 2 * offsets_size offsets
    \<and> create_lines_ibo_with_cyclic R offsets cyclic
        = concat (map (\<lambda>c. slots (create_lines_ibo_with_cyclic R offsets cyclic)
                            (offsets ! c + c * 2, ir_size (curve_points offsets c) + 2))
                   [0..<offsets_size offsets])
    \<and> (\<forall>c<offsets_size offsets.
          slots (create_lines_ibo_with_cyclic R offsets cyclic)
            (offsets ! c + c * 2, ir_size (curve_points offsets c) + 2)
          = point_indices offsets c
            @ [Some (if cyclic ! c then of_nat (ir_first (curve_points offsets c)) else R), Some R]
          \<and> int (ir_size (curve_points offsets c) + 2) = segment_count offsets c + 3)"
proof -
  let ?n = "offsets_size offsets"
  let ?chunk = "\<lambda>c. point_indices offsets c @ [Some R]"
  let ?chunk2 = "\<lambda>c. point_indices offsets c
                @ [Some (if cyclic ! c then of_nat (offsets ! c) else R), Some R]"
  note a = create_lines_ibo_no_cyclic_eq [OF ok, where R = R]
  note b = create_lines_ibo_with_cyclic_eq [OF ok, where R = R and cyclic = cyclic]
  have sz: "ir_size (curve_points offsets c) = offsets ! Suc c - offsets ! c"
    "ir_first (curve_points offsets c) = offsets ! c" for c
    by (simp_all add: curve_points_def ir_size_def ir_first_def ir_start_def)
  have s1: "slots (create_lines_ibo_no_cyclic R offsets)
              (offsets ! c + c, ir_size (curve_points offsets c) + 1) = ?chunk c"
    if "c < ?n" for c
    using slots_concat [of c ?n ?chunk "offsets ! c + c"] a(2) [where c = c] that
    by (simp add: a(1) sz length_point_indices)
  have s2: "slots (create_lines_ibo_with_cyclic R offsets cyclic)
              (offsets ! c + c * 2, ir_size (curve_points offsets c) + 2) = ?chunk2 c"
    if "c < ?n" for c
    using slots_concat [of c ?n ?chunk2 "offsets ! c + c * 2"] b(2) [where c = c] that
    by (simp add: b(1) sz length_point_indices)
  have l1: "length (create_lines_ibo_no_cyclic R offsets) = total_size offsets + ?n"
    using a(2) [where c = ?n] offsets_ok_total [OF ok] by (simp add: a(1))
  have l2: "length (create_lines_ibo_with_cyclic R offsets cyclic) = total_size offsets + 2 * ?n"
    using b(2) [where c = ?n] offsets_ok_total [OF ok] by (simp add: b(1))
  have c1: "create_lines_ibo_no_cyclic R offsets
        = concat (map (\<lambda>c. slots (create_lines_ibo_no_cyclic R offsets)
                            (offsets ! c + c, ir_size (curve_points offsets c) + 1)) [0..<?n])"
  proof -
    have m: "map (\<lambda>c. slots (create_lines_ibo_no_cyclic R offsets)
                (offsets ! c + c, ir_size (curve_points offsets c) + 1)) [0..<?n]
        = map ?chunk [0..<?n]"
      using s1 by (intro map_cong) simp_all
    show ?thesis by (subst m) (rule a(1))
  qed
  have c2: "create_lines_ibo_with_cyclic R offsets cyclic
        = concat (map (\<lambda>c. slots (create_lines_ibo_with_cyclic R offsets cyclic)
                            (offsets ! c + c * 2, ir_size (curve_points offsets c) + 2)) [0..<?n])"
  proof -
    have m: "map (\<lambda>c. slots (create_lines_ibo_with_cyclic R offsets cyclic)
                (offsets ! c + c * 2, ir_size (curve_points offsets c) + 2)) [0..<?n]
        = map ?chunk2 [0..<?n]"
      using s2 by (intro map_cong) simp_all
    show ?thesis by (subst m) (rule b(1))
  qed
  have seg: "int (ir_size (curve_points offsets c) + 1) = segment_count offsets c + 2"
    "int (ir_size (curve_points offsets c) + 2) = segment_count offsets c + 3" for c
    by (simp_all add: segment_count_def)
  show ?thesis
    using l1 l2 c1 c2 s1 s2 seg by (simp add: sz)
qed

text \<open>
  Claim C5. When no curve is flagged cyclic, the dispatching overload builds the non-cyclic
  buffer, and that buffer is the cyclic-aware builder's buffer on the same input with the
  second-to-last slot of every per-curve range taken out; the slot taken out holds the
  restart sentinel.
\<close>

theorem lines_ibo_all_non_cyclic:
  assumes ok: "offsets_ok offsets"
    and none: "list_all (\<lambda>b. \<not> b) cyclic"
    and len: "length cyclic = offsets_size offsets"
  shows "create_lines_ibo_with_cyclic_varray R offsets cyclic
           = create_lines_ibo_no_cyclic R offsets
    \<and> create_lines_ibo_no_cyclic R offsets
        = concat (map (\<lambda>c. without_closing_slot
                            (slots (create_lines_ibo_with_cyclic R offsets cyclic)
                               (offsets ! c + c * 2, ir_size (curve_points offsets c) + 2)))
                   [0..<offsets_size offsets])
    \<and> (\<forall>c<offsets_size offsets.
          slots (create_lines_ibo_with_cyclic R offsets cyclic)
            (offsets ! c + c * 2, ir_size (curve_points offsets c) + 2)
            ! ir_size (curve_points offsets c) = Some R)"
proof -
  let ?n = "offsets_size offsets"
  let ?chunk2 = "\<lambda>c. point_indices offsets c
                @ [Some (if cyclic ! c then of_nat (offsets ! c) else R), Some R]"
  note a = create_lines_ibo_no_cyclic_eq [OF ok, where R = R]
  note b = create_lines_ibo_with_cyclic_eq [OF ok, where R = R and cyclic = cyclic]
  have sz: "ir_size (curve_points offsets c) = offsets ! Suc c - offsets ! c" for c
    by (simp add: curve_points_def ir_size_def)
  have nc: "\<not> cyclic ! c" if "c < ?n" for c
    using none len that by (simp add: list_all_length)
  have s2: "slots (create_lines_ibo_with_cyclic R offsets cyclic)
              (offsets ! c + c * 2, ir_size (curve_points offsets c) + 2)
            = point_indices offsets c @ [Some R, Some R]"
    if "c < ?n" for c
    using slots_concat [of c ?n ?chunk2 "offsets ! c + c * 2"] b(2) [where c = c] that nc [OF that]
    by (simp add: b(1) sz length_point_indices)
  have d: "create_lines_ibo_with_cyclic_varray R offsets cyclic
           = create_lines_ibo_no_cyclic R offsets"
    using none by (simp add: create_lines_ibo_with_cyclic_varray_def booleans_mix_calc_def)
  have w: "without_closing_slot (point_indices offsets c @ [Some R, Some R])
      = point_indices offsets c @ [Some R]" for c
    by (simp add: without_closing_slot_def butlast_append)
  have m: "map (\<lambda>c. without_closing_slot
                (slots (create_lines_ibo_with_cyclic R offsets cyclic)
                   (offsets ! c + c * 2, ir_size (curve_points offsets c) + 2))) [0..<?n]
      = map (\<lambda>c. point_indices offsets c @ [Some R]) [0..<?n]"
    using s2 w by (intro map_cong) simp_all
  have e: "create_lines_ibo_no_cyclic R offsets
        = concat (map (\<lambda>c. without_closing_slot
                            (slots (create_lines_ibo_with_cyclic R offsets cyclic)
                               (offsets ! c + c * 2, ir_size (curve_points offsets c) + 2)))
                   [0..<?n])"
    by (subst m) (rule a(1))
  have "slots (create_lines_ibo_with_cyclic R offsets cyclic)
            (offsets ! c + c * 2, ir_size (curve_points offsets c) + 2)
            ! ir_size (curve_points offsets c) = Some R" if "c < ?n" for c
    using s2 [OF that] by (simp add: nth_append sz length_point_indices)
  with d e show ?thesis by blast
qed

theorem lines_ibo_layout_witness:
  "offsets_ok [0, 3, 4] \<and> length [True, False] = offsets_size [0, 3, 4]
   \<and> length (create_lines_ibo_no_cyclic (- 1) [0, 3, 4]) = 6
   \<and> length (create_lines_ibo_with_cyclic (- 1) [0, 3, 4] [True, False]) = 8
   \<and> create_lines_ibo_no_cyclic (- 1) [0, 3, 4]
       = [Some 0, Some 1, Some 2, Some (- 1), Some 3, Some (- 1)]
   \<and> create_lines_ibo_with_cyclic (- 1) [0, 3, 4] [True, False]
       = [Some 0, Some 1, Some 2, Some 0, Some (- 1), Some 3, Some (- 1), Some (- 1)]"
proof -
  have ok: "offsets_ok [0, 3, 4]"
    by (simp add: offsets_ok_def)
  have len: "length [True, False] = offsets_size [0, 3, 4]"
    by (simp add: offsets_size_def)
  have n: "offsets_size [0, 3, 4] = 2" "total_size [0, 3, 4] = 4"
    by (simp_all add: offsets_size_def total_size_def)
  from lines_ibo_layout [OF ok len, of "- 1"]
  have l: "length (create_lines_ibo_no_cyclic (- 1) [0, 3, 4]) = 6"
    "length (create_lines_ibo_with_cyclic (- 1) [0, 3, 4] [True, False]) = 8"
    by (simp_all add: n)
  have e: "create_lines_ibo_no_cyclic (- 1) [0, 3, 4]
       = [Some 0, Some 1, Some 2, Some (- 1), Some 3, Some (- 1)]"
    "create_lines_ibo_with_cyclic (- 1) [0, 3, 4] [True, False]
       = [Some 0, Some 1, Some 2, Some 0, Some (- 1), Some 3, Some (- 1), Some (- 1)]"
    by code_simp+
  from ok len l e show ?thesis by simp
qed

theorem lines_ibo_all_non_cyclic_witness:
  "offsets_ok [0, 3, 4] \<and> list_all (\<lambda>b. \<not> b) [False, False]
   \<and> length [False, False] = offsets_size [0, 3, 4]
   \<and> create_lines_ibo_with_cyclic_varray (- 1) [0, 3, 4] [False, False]
       = create_lines_ibo_no_cyclic (- 1) [0, 3, 4]
   \<and> create_lines_ibo_no_cyclic (- 1) [0, 3, 4]
       = [Some 0, Some 1, Some 2, Some (- 1), Some 3, Some (- 1)]
   \<and> create_lines_ibo_with_cyclic (- 1) [0, 3, 4] [False, False]
       = [Some 0, Some 1, Some 2, Some (- 1), Some (- 1), Some 3, Some (- 1), Some (- 1)]"
proof -
  have ok: "offsets_ok [0, 3, 4]"
    by (simp add: offsets_ok_def)
  have none: "list_all (\<lambda>b. \<not> b) [False, False]" by simp
  have len: "length [False, False] = offsets_size [0, 3, 4]"
    by (simp add: offsets_size_def)
  from lines_ibo_all_non_cyclic [OF ok none len, of "- 1"]
  have d: "create_lines_ibo_with_cyclic_varray (- 1) [0, 3, 4] [False, False]
       = create_lines_ibo_no_cyclic (- 1) [0, 3, 4]"
    by (rule conjunct1)
  have e: "create_lines_ibo_no_cyclic (- 1) [0, 3, 4]
       = [Some 0, Some 1, Some 2, Some (- 1), Some 3, Some (- 1)]"
    "create_lines_ibo_with_cyclic (- 1) [0, 3, 4] [False, False]
       = [Some 0, Some 1, Some 2, Some (- 1), Some (- 1), Some 3, Some (- 1), Some (- 1)]"
    by code_simp+
  from ok none len d e show ?thesis by simp
qed

section \<open>Edit-mode data of a selected Bezier knot\<close>

lemma fold_keeps_length:
  assumes "\<And>k d. k \<in> set ks \<Longrightarrow> length (f k d) = length d"
  shows "length (fold f ks d) = length d"
  using assms by (induction ks arbitrary: d) simp_all

lemma fold_keeps_nth:
  assumes "\<And>k d. k \<in> set ks \<Longrightarrow> f k d ! j = d ! j"
  shows "fold f ks d ! j = d ! j"
  using assms by (induction ks arbitrary: d) simp_all

lemma fold_sets_nth:
  assumes "k \<in> set ks"
    and "\<And>d. length d = N \<Longrightarrow> f k d ! j = v"
    and "\<And>k' d. k' \<in> set ks \<Longrightarrow> k' \<noteq> k \<Longrightarrow> f k' d ! j = d ! j"
    and "\<And>k' d. k' \<in> set ks \<Longrightarrow> length (f k' d) = length d"
    and "length d = N"
  shows "fold f ks d ! j = v"
  using assms
proof (induction ks arbitrary: d)
  case Nil
  then show ?case by simp
next
  case (Cons a ks)
  have len: "length (f a d) = N"
    using Cons.prems(4) [of a d] Cons.prems(5) by simp
  show ?case
  proof (cases "k \<in> set ks")
    case True
    from Cons.IH [OF True Cons.prems(2) _ _ len] Cons.prems(3,4)
    show ?thesis by simp
  next
    case False
    with Cons.prems(1) have a: "a = k" by simp
    have "fold f ks (f a d) ! j = f a d ! j"
    proof (rule fold_keeps_nth)
      fix k' d' assume "k' \<in> set ks"
      with False have "k' \<noteq> k" by blast
      with \<open>k' \<in> set ks\<close> Cons.prems(3) [of k' d'] show "f k' d' ! j = d' ! j" by simp
    qed
    with a Cons.prems(2) [OF Cons.prems(5)] show ?thesis by simp
  qed
qed

lemma fill_range_length [simp]: "length (fill_range points v d) = length d"
  unfolding fill_range_def by (rule fold_keeps_length) simp

lemma fill_range_frame:
  assumes "j < ir_start points \<or> ir_start points + ir_size points \<le> j"
  shows "fill_range points v d ! j = d ! j"
  unfolding fill_range_def
proof (rule fold_keeps_nth)
  fix i d' assume "i \<in> set (index_range points)"
  with assms have "ir_nth points i \<noteq> j"
    by (auto simp: index_range_def ir_nth_def)
  then show "d'[ir_nth points i := Some v] ! j = d' ! j" by simp
qed

lemma handle_other_curves_length [simp]:
  "length (handle_other_curves offsets sel fill_value mark_active selection d) = length d"
  unfolding handle_other_curves_def by (rule fold_keeps_length) (simp add: Let_def)

lemma handle_other_curves_frame:
  assumes "\<And>c. c \<in> set selection \<Longrightarrow> j < offsets ! c \<or> offsets ! c + (offsets ! Suc c - offsets ! c) \<le> j"
  shows "handle_other_curves offsets sel fill_value mark_active selection d ! j = d ! j"
  unfolding handle_other_curves_def
proof (rule fold_keeps_nth)
  fix c d' assume "c \<in> set selection"
  from assms [OF this]
  show "(let points = curve_points offsets c;
             is_active = mark_active \<and> 0 < count_booleans sel points;
             data_value = fill_value OR (if is_active then EDIT_CURVES_ACTIVE_HANDLE else 0)
         in fill_range points data_value d') ! j = d' ! j"
    unfolding Let_def
    by (intro fill_range_frame) (simp add: curve_points_def ir_start_def ir_size_def)
qed

lemma bezier_point_length [simp]:
  "length (bezier_point attrs D B s dst point d) = length d"
  by (simp add: bezier_point_def Let_def)

lemma bezier_point_frame:
  assumes "j \<noteq> point" "j \<noteq> D + (dst + (point - s))" "j \<noteq> D + B + (dst + (point - s))"
  shows "bezier_point attrs D B s dst point d ! j = d ! j"
  using assms by (simp add: bezier_point_def Let_def)

lemma bezier_point_sets:
  assumes "point < D" "dst + (point - s) < B" "length d = D + B * 2"
  shows "bezier_point attrs D B s dst point d ! point = Some EDIT_CURVES_BEZIER_KNOT"
    and "bezier_point attrs D B s dst point d ! (D + (dst + (point - s)))
          = Some (bezier_data_value (left_handle_types attrs ! point)
                    (selection_attr attrs ! point \<or> selection_left attrs ! point
                     \<or> selection_right attrs ! point))"
    and "bezier_point attrs D B s dst point d ! (D + B + (dst + (point - s)))
          = Some (bezier_data_value (right_handle_types attrs ! point)
                    (selection_attr attrs ! point \<or> selection_left attrs ! point
                     \<or> selection_right attrs ! point))"
  using assms by (simp_all add: bezier_point_def Let_def nth_list_update)


lemma bezier_curve_length [simp]:
  "length (bezier_curve offsets boffs attrs D index d) = length d"
  unfolding bezier_curve_def Let_def by (rule fold_keeps_length) simp

lemma bezier_curve_frame:
  assumes "j < offsets ! c \<or> offsets ! c + (offsets ! Suc c - offsets ! c) \<le> j"
    and "j < D + boffs ! k \<or> D + boffs ! k + (offsets ! Suc c - offsets ! c) \<le> j"
    and "j < D + total_size boffs + boffs ! k
         \<or> D + total_size boffs + boffs ! k + (offsets ! Suc c - offsets ! c) \<le> j"
  shows "bezier_curve offsets boffs attrs D (c, k) d ! j = d ! j"
  unfolding bezier_curve_def Let_def
proof (rule fold_keeps_nth)
  fix q d'
  assume "q \<in> set [ir_start (curve_points offsets (fst (c, k)))..<
                    ir_start (curve_points offsets (fst (c, k)))
                    + ir_size (curve_points offsets (fst (c, k)))]"
  then have q: "offsets ! c \<le> q" "q < offsets ! c + (offsets ! Suc c - offsets ! c)"
    by (simp_all add: curve_points_def ir_start_def ir_size_def)
  show "bezier_point attrs D (total_size boffs) (ir_start (curve_points offsets (fst (c, k))))
          (ir_start (curve_points boffs (snd (c, k)))) q d' ! j = d' ! j"
    using assms q
    by (intro bezier_point_frame) (auto simp: curve_points_def ir_start_def)
qed

lemma bezier_curve_sets:
  assumes p: "offsets ! c \<le> p" "p < offsets ! Suc c"
    and D: "offsets ! Suc c \<le> D"
    and B: "boffs ! k + (offsets ! Suc c - offsets ! c) \<le> total_size boffs"
    and len: "length d = D + total_size boffs * 2"
  shows "bezier_curve offsets boffs attrs D (c, k) d ! p = Some EDIT_CURVES_BEZIER_KNOT"
    and "bezier_curve offsets boffs attrs D (c, k) d ! (D + (boffs ! k + (p - offsets ! c)))
          = Some (bezier_data_value (left_handle_types attrs ! p)
                    (selection_attr attrs ! p \<or> selection_left attrs ! p
                     \<or> selection_right attrs ! p))"
    and "bezier_curve offsets boffs attrs D (c, k) d
           ! (D + total_size boffs + (boffs ! k + (p - offsets ! c)))
          = Some (bezier_data_value (right_handle_types attrs ! p)
                    (selection_attr attrs ! p \<or> selection_left attrs ! p
                     \<or> selection_right attrs ! p))"
proof -
  let ?s = "offsets ! c"
  let ?n = "offsets ! Suc c - offsets ! c"
  let ?B = "total_size boffs"
  let ?f = "bezier_point attrs D ?B ?s (boffs ! k)"
  have e: "bezier_curve offsets boffs attrs D (c, k) d = fold ?f [?s..<?s + ?n] d"
    by (simp add: bezier_curve_def Let_def curve_points_def ir_start_def ir_size_def)
  have mem: "p \<in> set [?s..<?s + ?n]" using p by simp
  have pD: "p < D" using p D by simp
  have pB: "boffs ! k + (p - ?s) < ?B" using p B by simp
  have other: "q < D \<and> boffs ! k + (q - ?s) < ?B \<and> q - ?s \<noteq> p - ?s"
    if "q \<in> set [?s..<?s + ?n]" "q \<noteq> p" for q
    using that p D B by auto
  show "bezier_curve offsets boffs attrs D (c, k) d ! p = Some EDIT_CURVES_BEZIER_KNOT"
    unfolding e
  proof (rule fold_sets_nth [OF mem _ _ _ len])
    fix d' :: "32 word option list" assume "length d' = D + ?B * 2"
    from bezier_point_sets(1) [OF pD pB this]
    show "?f p d' ! p = Some EDIT_CURVES_BEZIER_KNOT" .
  next
    fix q d' assume "q \<in> set [?s..<?s + ?n]" "q \<noteq> p"
    with other [OF this] pD show "?f q d' ! p = d' ! p"
      by (intro bezier_point_frame) auto
  qed simp
  show "bezier_curve offsets boffs attrs D (c, k) d ! (D + (boffs ! k + (p - ?s)))
          = Some (bezier_data_value (left_handle_types attrs ! p)
                    (selection_attr attrs ! p \<or> selection_left attrs ! p
                     \<or> selection_right attrs ! p))"
    unfolding e
  proof (rule fold_sets_nth [OF mem _ _ _ len])
    fix d' :: "32 word option list" assume "length d' = D + ?B * 2"
    from bezier_point_sets(2) [OF pD pB this]
    show "?f p d' ! (D + (boffs ! k + (p - ?s)))
          = Some (bezier_data_value (left_handle_types attrs ! p)
                    (selection_attr attrs ! p \<or> selection_left attrs ! p
                     \<or> selection_right attrs ! p))" .
  next
    fix q d' assume "q \<in> set [?s..<?s + ?n]" "q \<noteq> p"
    with other [OF this] pB
    show "?f q d' ! (D + (boffs ! k + (p - ?s))) = d' ! (D + (boffs ! k + (p - ?s)))"
      by (intro bezier_point_frame) auto
  qed simp
  show "bezier_curve offsets boffs attrs D (c, k) d ! (D + ?B + (boffs ! k + (p - ?s)))
          = Some (bezier_data_value (right_handle_types attrs ! p)
                    (selection_attr attrs ! p \<or> selection_left attrs ! p
                     \<or> selection_right attrs ! p))"
    unfolding e
  proof (rule fold_sets_nth [OF mem _ _ _ len])
    fix d' :: "32 word option list" assume "length d' = D + ?B * 2"
    from bezier_point_sets(3) [OF pD pB this]
    show "?f p d' ! (D + ?B + (boffs ! k + (p - ?s)))
          = Some (bezier_data_value (right_handle_types attrs ! p)
                    (selection_attr attrs ! p \<or> selection_left attrs ! p
                     \<or> selection_right attrs ! p))" .
  next
    fix q d' assume "q \<in> set [?s..<?s + ?n]" "q \<noteq> p"
    with other [OF this] pB
    show "?f q d' ! (D + ?B + (boffs ! k + (p - ?s))) = d' ! (D + ?B + (boffs ! k + (p - ?s)))"
      by (intro bezier_point_frame) auto
  qed simp
qed


lemma offsets_ok_mono:
  assumes "offsets_ok offsets" "a \<le> b" "b \<le> offsets_size offsets"
  shows "offsets ! a \<le> offsets ! b"
proof -
  from assms have "sorted offsets" "0 < length offsets"
    by (simp_all add: offsets_ok_def)
  moreover with assms(3) have "b < length offsets"
    unfolding offsets_size_def by arith
  ultimately show ?thesis using assms(2) by (simp add: sorted_nth_mono)
qed

lemma curve_ranges_disjoint:
  assumes ok: "offsets_ok offsets"
    and c: "c < offsets_size offsets" "c' < offsets_size offsets" "c \<noteq> c'"
    and p: "offsets ! c \<le> p" "p < offsets ! Suc c"
  shows "p < offsets ! c' \<or> offsets ! Suc c' \<le> p"
proof (cases "c < c'")
  case True
  with offsets_ok_mono [OF ok, of "Suc c" c'] c p show ?thesis by simp
next
  case False
  with c have "Suc c' \<le> c" by simp
  with offsets_ok_mono [OF ok this] c p show ?thesis by simp
qed

lemma indices_for_type_props:
  "distinct (indices_for_type curve_types t)"
  "c \<in> set (indices_for_type curve_types t) \<longleftrightarrow> c < length curve_types \<and> curve_types ! c = t"
  by (auto simp: indices_for_type_def)

lemma gather_selected_offsets_nth:
  assumes "k \<le> length selection"
  shows "gather_selected_offsets offsets selection ! k
         = sum_list (map (\<lambda>c. ir_size (curve_points offsets c)) (take k selection))"
proof -
  have "k < length [0..<Suc (length selection)]" using assms by simp
  then have "gather_selected_offsets offsets selection ! k
      = (\<lambda>k. sum_list (map (\<lambda>c. ir_size (curve_points offsets c)) (take k selection)))
          ([0..<Suc (length selection)] ! k)"
    unfolding gather_selected_offsets_def by (rule nth_map)
  also have "[0..<Suc (length selection)] ! k = k"
    using assms by (metis add_0 less_Suc_eq_le nth_upt)
  finally show ?thesis .
qed

lemma gather_selected_offsets_Suc:
  assumes "k < length selection"
  shows "gather_selected_offsets offsets selection ! Suc k
         = gather_selected_offsets offsets selection ! k
           + (offsets ! Suc (selection ! k) - offsets ! (selection ! k))"
  using assms
  by (simp add: gather_selected_offsets_nth take_Suc_conv_app_nth curve_points_def ir_size_def)

lemma gather_selected_offsets_mono:
  assumes "a \<le> b" "b \<le> length selection"
  shows "gather_selected_offsets offsets selection ! a
         \<le> gather_selected_offsets offsets selection ! b"
  using assms
proof (induction b)
  case 0
  then show ?case by simp
next
  case (Suc b)
  show ?case
  proof (cases "a = Suc b")
    case True
    then show ?thesis by simp
  next
    case False
    with Suc.prems have "a \<le> b" "b \<le> length selection" "b < length selection" by simp_all
    with Suc.IH gather_selected_offsets_Suc [of b selection offsets] show ?thesis by simp
  qed
qed

lemma gather_selected_offsets_total:
  "total_size (gather_selected_offsets offsets selection)
     = gather_selected_offsets offsets selection ! length selection"
proof -
  let ?g = "gather_selected_offsets offsets selection"
  have l: "length ?g = Suc (length selection)"
    by (simp add: gather_selected_offsets_def)
  have z: "?g ! 0 = 0"
    by (simp add: gather_selected_offsets_nth)
  have h: "hd ?g = ?g ! 0" "last ?g = ?g ! length selection"
    using l by (simp_all add: hd_conv_nth last_conv_nth flip: length_greater_0_conv)
  show ?thesis
  proof (cases "selection = []")
    case True
    with z l show ?thesis by (simp add: total_size_def)
  next
    case False
    with l h z show ?thesis by (simp add: total_size_def)
  qed
qed


lemma edit_data_bezier_point:
  fixes attrs :: EditAttributes
  assumes ok: "offsets_ok offsets"
    and types: "length curve_types = offsets_size offsets"
    and k: "k < length (indices_for_type curve_types CURVE_TYPE_BEZIER)"
    and p: "offsets ! (indices_for_type curve_types CURVE_TYPE_BEZIER ! k) \<le> point"
      "point < offsets ! Suc (indices_for_type curve_types CURVE_TYPE_BEZIER ! k)"
  defines "selection \<equiv> indices_for_type curve_types CURVE_TYPE_BEZIER"
  defines "boffs \<equiv> gather_selected_offsets offsets selection"
  defines "D \<equiv> total_size offsets"
  defines "data \<equiv> create_edit_points_position_and_data offsets curve_types boffs D attrs"
  defines "active \<equiv> selection_attr attrs ! point \<or> selection_left attrs ! point
                       \<or> selection_right attrs ! point"
  shows "length data = D + total_size boffs * 2"
    and "boffs ! k + (point - offsets ! (selection ! k)) < total_size boffs"
    and "data ! point = Some EDIT_CURVES_BEZIER_KNOT"
    and "data ! (D + (boffs ! k + (point - offsets ! (selection ! k))))
          = Some (bezier_data_value (left_handle_types attrs ! point) active)"
    and "data ! (D + total_size boffs + (boffs ! k + (point - offsets ! (selection ! k))))
          = Some (bezier_data_value (right_handle_types attrs ! point) active)"
proof -
  let ?n = "offsets_size offsets"
  let ?c = "selection ! k"
  let ?B = "total_size boffs"
  let ?m = "length selection"
  let ?d2 = "handle_other_curves offsets (selection_attr attrs) 0 False
               (indices_for_type curve_types CURVE_TYPE_POLY)
               (handle_other_curves offsets (selection_attr attrs) 0 False
                  (indices_for_type curve_types CURVE_TYPE_CATMULL_ROM)
                  (replicate (D + ?B * 2) None))"
  let ?d3 = "fold (bezier_curve offsets boffs attrs D) (zip selection [0..<?m]) ?d2"
  have data: "data = handle_other_curves offsets (selection_attr attrs)
                 EDIT_CURVES_NURBS_CONTROL_POINT True
                 (indices_for_type curve_types CURVE_TYPE_NURBS) ?d3"
    by (simp add: data_def create_edit_points_position_and_data_def Let_def selection_def)
  have km: "k < ?m" using k by (simp add: selection_def)
  have cs: "?c \<in> set selection" using km by simp
  then have c: "?c < ?n" "curve_types ! ?c = CURVE_TYPE_BEZIER"
    using types by (simp_all add: selection_def indices_for_type_props(2))
  have pp: "offsets ! ?c \<le> point" "point < offsets ! Suc ?c"
    using p by (simp_all add: selection_def)
  have Dn: "D = offsets ! ?n"
    by (simp add: D_def offsets_ok_total [OF ok])
  have below: "offsets ! Suc c' \<le> D" "offsets ! c' \<le> offsets ! Suc c'" if "c' < ?n" for c'
    using offsets_ok_mono [OF ok, of "Suc c'" ?n] offsets_ok_mono [OF ok, of c' "Suc c'"] that
    by (simp_all add: Dn)
  have Bm: "?B = boffs ! ?m"
    by (simp add: boffs_def gather_selected_offsets_total)
  have bS: "boffs ! Suc k' = boffs ! k' + (offsets ! Suc (selection ! k') - offsets ! (selection ! k'))"
    if "k' < ?m" for k'
    using that by (simp add: boffs_def gather_selected_offsets_Suc)
  have bmono: "boffs ! a \<le> boffs ! b" if "a \<le> b" "b \<le> ?m" for a b
    using that by (simp add: boffs_def gather_selected_offsets_mono)
  have bB: "boffs ! Suc k' \<le> ?B" if "k' < ?m" for k'
    using bmono [of "Suc k'" ?m] that by (simp add: Bm)
  show inB: "boffs ! k + (point - offsets ! ?c) < ?B"
    using bS [OF km] bB [OF km] pp by arith
  have pD: "point < D" using pp below(1) [OF c(1)] by simp
  have len2: "length ?d2 = D + ?B * 2" by simp
  have len3: "length ?d3 = D + ?B * 2"
    by (subst fold_keeps_length) simp_all
  show "length data = D + ?B * 2"
    unfolding data by (simp add: len3)
  have mem: "(?c, k) \<in> set (zip selection [0..<?m])"
    using km by (auto simp: in_set_zip)
  have blocks: "boffs ! k + (point - offsets ! ?c) < boffs ! k'
        \<or> boffs ! k' + (offsets ! Suc c' - offsets ! c') \<le> boffs ! k + (point - offsets ! ?c)"
    and curves: "point < offsets ! c' \<or> offsets ! c' + (offsets ! Suc c' - offsets ! c') \<le> point"
    and cn: "c' < ?n"
    if "(c', k') \<in> set (zip selection [0..<?m])" "(c', k') \<noteq> (?c, k)" for c' k'
  proof -
    from that(1) have k': "k' < ?m" "c' = selection ! k'"
      by (auto simp: in_set_zip)
    with that(2) have nk: "k' \<noteq> k" by auto
    have "distinct selection" by (simp add: selection_def indices_for_type_props(1))
    with k' km nk have nc: "?c \<noteq> c'" by (simp add: nth_eq_iff_index_eq)
    have "c' \<in> set selection" using k' by simp
    then show c'n: "c' < ?n"
      using types by (simp add: selection_def indices_for_type_props(2))
    from curve_ranges_disjoint [OF ok c(1) c'n nc pp] below(2) [OF c'n]
    show "point < offsets ! c' \<or> offsets ! c' + (offsets ! Suc c' - offsets ! c') \<le> point"
      by auto
    show "boffs ! k + (point - offsets ! ?c) < boffs ! k'
        \<or> boffs ! k' + (offsets ! Suc c' - offsets ! c') \<le> boffs ! k + (point - offsets ! ?c)"
    proof (cases "k < k'")
      case True
      then have "Suc k \<le> k'" by simp
      from bmono [OF this] k'(1) have "boffs ! Suc k \<le> boffs ! k'" by simp
      with bS [OF km] pp show ?thesis by arith
    next
      case False
      with nk have "Suc k' \<le> k" by simp
      from bmono [OF this] km have "boffs ! Suc k' \<le> boffs ! k" by simp
      with bS [OF k'(1)] k'(2) show ?thesis by arith
    qed
  qed
  have d3: "?d3 ! point = Some EDIT_CURVES_BEZIER_KNOT"
    "?d3 ! (D + (boffs ! k + (point - offsets ! ?c)))
       = Some (bezier_data_value (left_handle_types attrs ! point) active)"
    "?d3 ! (D + ?B + (boffs ! k + (point - offsets ! ?c)))
       = Some (bezier_data_value (right_handle_types attrs ! point) active)"
  proof -
    note sets = bezier_curve_sets [OF pp below(1) [OF c(1)], of boffs k _ attrs]
    have room: "boffs ! k + (offsets ! Suc ?c - offsets ! ?c) \<le> ?B"
      using bS [OF km] bB [OF km] by arith
    show "?d3 ! point = Some EDIT_CURVES_BEZIER_KNOT"
    proof (rule fold_sets_nth [OF mem _ _ _ len2])
      fix d :: "32 word option list" assume "length d = D + ?B * 2"
      from sets(1) [OF room this]
      show "bezier_curve offsets boffs attrs D (?c, k) d ! point = Some EDIT_CURVES_BEZIER_KNOT" .
    next
      fix i d assume i: "i \<in> set (zip selection [0..<?m])" "i \<noteq> (?c, k)"
      obtain c' k' where ci: "i = (c', k')" by (cases i)
      from curves [of c' k'] i ci pD
      show "bezier_curve offsets boffs attrs D i d ! point = d ! point"
        unfolding ci by (intro bezier_curve_frame) auto
    qed simp
    show "?d3 ! (D + (boffs ! k + (point - offsets ! ?c)))
       = Some (bezier_data_value (left_handle_types attrs ! point) active)"
    proof (rule fold_sets_nth [OF mem _ _ _ len2])
      fix d :: "32 word option list" assume "length d = D + ?B * 2"
      from sets(2) [OF room this]
      show "bezier_curve offsets boffs attrs D (?c, k) d ! (D + (boffs ! k + (point - offsets ! ?c)))
          = Some (bezier_data_value (left_handle_types attrs ! point) active)"
        by (simp add: active_def)
    next
      fix i d assume i: "i \<in> set (zip selection [0..<?m])" "i \<noteq> (?c, k)"
      obtain c' k' where ci: "i = (c', k')" by (cases i)
      from blocks [of c' k'] cn [of c' k'] i ci inB
      have "boffs ! k + (point - offsets ! ?c) < boffs ! k'
        \<or> boffs ! k' + (offsets ! Suc c' - offsets ! c') \<le> boffs ! k + (point - offsets ! ?c)"
        "offsets ! Suc c' \<le> D" "offsets ! c' \<le> offsets ! Suc c'"
        using below by simp_all
      with inB
      show "bezier_curve offsets boffs attrs D i d ! (D + (boffs ! k + (point - offsets ! ?c)))
          = d ! (D + (boffs ! k + (point - offsets ! ?c)))"
        unfolding ci by (intro bezier_curve_frame) auto
    qed simp
    show "?d3 ! (D + ?B + (boffs ! k + (point - offsets ! ?c)))
       = Some (bezier_data_value (right_handle_types attrs ! point) active)"
    proof (rule fold_sets_nth [OF mem _ _ _ len2])
      fix d :: "32 word option list" assume "length d = D + ?B * 2"
      from sets(3) [OF room this]
      show "bezier_curve offsets boffs attrs D (?c, k) d
              ! (D + ?B + (boffs ! k + (point - offsets ! ?c)))
          = Some (bezier_data_value (right_handle_types attrs ! point) active)"
        by (simp add: active_def)
    next
      fix i d assume i: "i \<in> set (zip selection [0..<?m])" "i \<noteq> (?c, k)"
      obtain c' k' where ci: "i = (c', k')" by (cases i)
      from i ci have k'm: "k' < ?m" "c' = selection ! k'" by (auto simp: in_set_zip)
      from blocks [of c' k'] cn [of c' k'] i ci
      have "boffs ! k + (point - offsets ! ?c) < boffs ! k'
        \<or> boffs ! k' + (offsets ! Suc c' - offsets ! c') \<le> boffs ! k + (point - offsets ! ?c)"
        "offsets ! Suc c' \<le> D" "offsets ! c' \<le> offsets ! Suc c'"
        using below by simp_all
      moreover have "boffs ! k' + (offsets ! Suc c' - offsets ! c') \<le> ?B"
        using bS [OF k'm(1)] bB [OF k'm(1)] k'm(2) by arith
      ultimately
      show "bezier_curve offsets boffs attrs D i d ! (D + ?B + (boffs ! k + (point - offsets ! ?c)))
          = d ! (D + ?B + (boffs ! k + (point - offsets ! ?c)))"
        unfolding ci by (intro bezier_curve_frame) auto
    qed simp
  qed
  have nurbs: "j < offsets ! c' \<or> offsets ! c' + (offsets ! Suc c' - offsets ! c') \<le> j"
    if "c' \<in> set (indices_for_type curve_types CURVE_TYPE_NURBS)" "j = point \<or> D \<le> j" for c' j
  proof -
    from that(1) types have c': "c' < ?n" "curve_types ! c' = CURVE_TYPE_NURBS"
      by (simp_all add: indices_for_type_props(2))
    with c(2) have "?c \<noteq> c'" by auto
    from curve_ranges_disjoint [OF ok c(1) c'(1) this pp] below [OF c'(1)] that(2)
    show ?thesis by auto
  qed
  show "data ! point = Some EDIT_CURVES_BEZIER_KNOT"
    unfolding data using d3(1) nurbs [of _ point]
    by (subst handle_other_curves_frame) simp_all
  show "data ! (D + (boffs ! k + (point - offsets ! ?c)))
          = Some (bezier_data_value (left_handle_types attrs ! point) active)"
    unfolding data using d3(2) nurbs [of _ "D + (boffs ! k + (point - offsets ! ?c))"]
    by (subst handle_other_curves_frame) simp_all
  show "data ! (D + ?B + (boffs ! k + (point - offsets ! ?c)))
          = Some (bezier_data_value (right_handle_types attrs ! point) active)"
    unfolding data using d3(3) nurbs [of _ "D + ?B + (boffs ! k + (point - offsets ! ?c))"]
    by (subst handle_other_curves_frame) simp_all
qed

lemma or_and_absorb:
  fixes a b c :: "32 word"
  shows "(a OR b OR c) AND b = b" and "(a OR b OR c) AND c = c"
  by (rule bit_word_eqI; auto simp: bit_simps)+

lemma drop_push_4:
  fixes x :: "32 word"
  shows "drop_bit 4 (push_bit 4 x OR b OR c) = take_bit 28 x OR drop_bit 4 b OR drop_bit 4 c"
  by (rule bit_word_eqI) (auto simp: bit_simps)

lemma bezier_data_value_active:
  "bezier_data_value h True
     = push_bit 4 (scast h) OR EDIT_CURVES_BEZIER_HANDLE OR EDIT_CURVES_ACTIVE_HANDLE"
  "bezier_data_value h True AND EDIT_CURVES_BEZIER_HANDLE = EDIT_CURVES_BEZIER_HANDLE"
  "bezier_data_value h True AND EDIT_CURVES_ACTIVE_HANDLE = EDIT_CURVES_ACTIVE_HANDLE"
  "drop_bit EDIT_CURVES_HANDLE_TYPES_SHIFT (bezier_data_value h True) = take_bit 28 (scast h)"
proof -
  show e: "bezier_data_value h True
     = push_bit 4 (scast h) OR EDIT_CURVES_BEZIER_HANDLE OR EDIT_CURVES_ACTIVE_HANDLE"
    by (simp add: bezier_data_value_def EDIT_CURVES_HANDLE_TYPES_SHIFT_def)
  show "bezier_data_value h True AND EDIT_CURVES_BEZIER_HANDLE = EDIT_CURVES_BEZIER_HANDLE"
    unfolding e by (rule or_and_absorb(1))
  show "bezier_data_value h True AND EDIT_CURVES_ACTIVE_HANDLE = EDIT_CURVES_ACTIVE_HANDLE"
    unfolding e by (rule or_and_absorb(2))
  have "drop_bit 4 EDIT_CURVES_BEZIER_HANDLE = 0" "drop_bit 4 EDIT_CURVES_ACTIVE_HANDLE = 0"
    by (simp_all add: EDIT_CURVES_BEZIER_HANDLE_def EDIT_CURVES_ACTIVE_HANDLE_def)
  then show "drop_bit EDIT_CURVES_HANDLE_TYPES_SHIFT (bezier_data_value h True)
      = take_bit 28 (scast h)"
    unfolding e EDIT_CURVES_HANDLE_TYPES_SHIFT_def drop_push_4 by simp
qed

lemma bezier_knot_bits:
  "EDIT_CURVES_BEZIER_KNOT AND (EDIT_CURVES_NURBS_CONTROL_POINT OR EDIT_CURVES_BEZIER_HANDLE) = 0"
  "drop_bit EDIT_CURVES_HANDLE_TYPES_SHIFT EDIT_CURVES_BEZIER_KNOT = 0"
  by (simp_all add: EDIT_CURVES_BEZIER_KNOT_def EDIT_CURVES_NURBS_CONTROL_POINT_def
      EDIT_CURVES_BEZIER_HANDLE_def EDIT_CURVES_HANDLE_TYPES_SHIFT_def)


text \<open>
  Claim C7. Let \<open>point\<close> be a selected point of the \<open>k\<close>-th Bezier curve of a geometry
  with well-formed offsets, the Bezier offsets being the ones gathered from the Bezier
  curves. In the data buffer, which has one record per point followed by a block of left
  handles and a block of right handles, the record of the point is the Bezier-knot flag
  alone: the NURBS and handle flags and the handle-type bits are clear. The records of its
  left and right handle lie in the left and the right block, at the curve's Bezier offset
  plus the point's position in the curve, and each is the handle's type shifted left by
  four, or-ed with the Bezier-handle flag and the active flag.
\<close>

theorem selected_bezier_knot_data:
  fixes attrs :: EditAttributes
  assumes ok: "offsets_ok offsets"
    and types: "length curve_types = offsets_size offsets"
    and sel: "selection = indices_for_type curve_types CURVE_TYPE_BEZIER"
    and bo: "bezier_dst_offsets = gather_selected_offsets offsets selection"
    and da: "data = create_edit_points_position_and_data offsets curve_types bezier_dst_offsets
                      (total_size offsets) attrs"
    and k: "k < length selection"
    and p: "offsets ! (selection ! k) \<le> point" "point < offsets ! Suc (selection ! k)"
    and s: "selection_attr attrs ! point"
    and li: "left_i = total_size offsets
                      + (bezier_dst_offsets ! k + (point - offsets ! (selection ! k)))"
    and ri: "right_i = total_size offsets + total_size bezier_dst_offsets
                       + (bezier_dst_offsets ! k + (point - offsets ! (selection ! k)))"
  shows "length data = total_size offsets + 2 * total_size bezier_dst_offsets
    \<and> data ! point = Some EDIT_CURVES_BEZIER_KNOT
    \<and> EDIT_CURVES_BEZIER_KNOT AND (EDIT_CURVES_NURBS_CONTROL_POINT OR EDIT_CURVES_BEZIER_HANDLE)
        = 0
    \<and> drop_bit EDIT_CURVES_HANDLE_TYPES_SHIFT EDIT_CURVES_BEZIER_KNOT = 0
    \<and> total_size offsets \<le> left_i
    \<and> left_i < total_size offsets + total_size bezier_dst_offsets
    \<and> data ! left_i = Some (bezier_data_value (left_handle_types attrs ! point) True)
    \<and> total_size offsets + total_size bezier_dst_offsets \<le> right_i
    \<and> right_i < total_size offsets + 2 * total_size bezier_dst_offsets
    \<and> data ! right_i = Some (bezier_data_value (right_handle_types attrs ! point) True)
    \<and> (\<forall>h. bezier_data_value h True
               = push_bit 4 (scast h) OR EDIT_CURVES_BEZIER_HANDLE OR EDIT_CURVES_ACTIVE_HANDLE
            \<and> bezier_data_value h True AND EDIT_CURVES_BEZIER_HANDLE = EDIT_CURVES_BEZIER_HANDLE
            \<and> bezier_data_value h True AND EDIT_CURVES_ACTIVE_HANDLE = EDIT_CURVES_ACTIVE_HANDLE
            \<and> drop_bit EDIT_CURVES_HANDLE_TYPES_SHIFT (bezier_data_value h True)
                = take_bit 28 (scast h))"
proof -
  have k': "k < length (indices_for_type curve_types CURVE_TYPE_BEZIER)"
    and p': "offsets ! (indices_for_type curve_types CURVE_TYPE_BEZIER ! k) \<le> point"
      "point < offsets ! Suc (indices_for_type curve_types CURVE_TYPE_BEZIER ! k)"
    using k p by (simp_all add: sel)
  note e0 = edit_data_bezier_point [OF ok types k' p', folded sel, folded bo]
  note e = e0(1) [where attrs = attrs, folded da] e0(2) e0(3) [where attrs = attrs, folded da]
    e0(4) [where attrs = attrs, folded da] e0(5) [where attrs = attrs, folded da]
  have a: "selection_attr attrs ! point \<or> selection_left attrs ! point
      \<or> selection_right attrs ! point"
    using s by simp
  from e(2) have "total_size offsets \<le> left_i"
    "left_i < total_size offsets + total_size bezier_dst_offsets"
    "total_size offsets + total_size bezier_dst_offsets \<le> right_i"
    "right_i < total_size offsets + 2 * total_size bezier_dst_offsets"
    by (simp_all add: li ri)
  moreover from e(1) have "length data = total_size offsets + 2 * total_size bezier_dst_offsets"
    by simp
  moreover from e(4,5) a have
    "data ! left_i = Some (bezier_data_value (left_handle_types attrs ! point) True)"
    "data ! right_i = Some (bezier_data_value (right_handle_types attrs ! point) True)"
    by (simp_all add: li ri)
  ultimately show ?thesis
    using e(3) bezier_knot_bits bezier_data_value_active by simp
qed

theorem selected_bezier_knot_data_witness:
  "offsets_ok [0, 2, 5, 6]
   \<and> length [CURVE_TYPE_BEZIER, CURVE_TYPE_NURBS, CURVE_TYPE_BEZIER] = offsets_size [0, 2, 5, 6]
   \<and> indices_for_type [CURVE_TYPE_BEZIER, CURVE_TYPE_NURBS, CURVE_TYPE_BEZIER] CURVE_TYPE_BEZIER
       = [0, 2]
   \<and> gather_selected_offsets [0, 2, 5, 6] [0, 2] = [0, 2, 3]
   \<and> (0::nat) < length [0, 2::nat]
   \<and> [0, 2, 5, 6] ! ([0, 2] ! 0) \<le> (1::nat) \<and> (1::nat) < [0, 2, 5, 6] ! Suc ([0, 2] ! 0)
   \<and> selection_attr ex_attrs ! 1
   \<and> create_edit_points_position_and_data [0, 2, 5, 6]
         [CURVE_TYPE_BEZIER, CURVE_TYPE_NURBS, CURVE_TYPE_BEZIER] [0, 2, 3] 6 ex_attrs
       = [Some 8, Some 8, Some 5, Some 5, Some 5, Some 8,
          Some 22, Some 38, Some 54, Some 54, Some 22, Some 6]
   \<and> bezier_data_value (left_handle_types ex_attrs ! 1) True = 38
   \<and> bezier_data_value (right_handle_types ex_attrs ! 1) True = 22"
proof -
  let ?offsets = "[0, 2, 5, 6::nat]"
  let ?types = "[CURVE_TYPE_BEZIER, CURVE_TYPE_NURBS, CURVE_TYPE_BEZIER]"
  have ok: "offsets_ok ?offsets" by (simp add: offsets_ok_def)
  have types: "length ?types = offsets_size ?offsets" by (simp add: offsets_size_def)
  have sel: "[0, 2] = indices_for_type ?types CURVE_TYPE_BEZIER" by code_simp
  have bo: "[0, 2, 3] = gather_selected_offsets ?offsets [0, 2]" by code_simp
  have t: "total_size ?offsets = 6" "total_size [0, 2, 3::nat] = 3"
    by (simp_all add: total_size_def)
  have da: "[Some 8, Some 8, Some 5, Some 5, Some 5, Some 8,
          Some 22, Some 38, Some 54, Some 54, Some 22, Some 6]
      = create_edit_points_position_and_data ?offsets ?types [0, 2, 3] (total_size ?offsets)
          ex_attrs"
    unfolding t by code_simp
  have k: "(0::nat) < length [0, 2::nat]" by simp
  have p: "?offsets ! ([0, 2] ! 0) \<le> (1::nat)" "(1::nat) < ?offsets ! Suc ([0, 2] ! 0)"
    by simp_all
  have s: "selection_attr ex_attrs ! 1" by (simp add: ex_attrs_def)
  from selected_bezier_knot_data [OF ok types sel bo da k p s refl refl]
  have l: "length [Some 8, Some 8, Some 5, Some 5, Some 5, Some 8,
          Some 22, Some 38, Some 54, Some 54, Some 22, Some (6::32 word)]
      = total_size ?offsets + 2 * total_size [0, 2, 3::nat]"
    by (rule conjunct1)
  have v: "bezier_data_value (left_handle_types ex_attrs ! 1) True = 38"
    "bezier_data_value (right_handle_types ex_attrs ! 1) True = 22"
    by code_simp+
  from ok types sel [symmetric] bo [symmetric] da [symmetric] k p s v l show ?thesis
    by (simp add: t)
qed

end
